theory Spec2Isabelle
  imports Main
begin

section \<open>The marketplace workflow: the store and the route handlers\<close>

text \<open>
  The backend is a set of Express route handlers over a PostgreSQL store reached
  through Prisma (tables \<^verbatim>\<open>users\<close>, \<^verbatim>\<open>projects\<close>, \<^verbatim>\<open>requests\<close>, \<^verbatim>\<open>tasks\<close>,
  \<^verbatim>\<open>submissions\<close>). Every handler is modelled as a function from the store (and the
  request's parameters) to the HTTP response and the store it leaves behind. The
  handlers run no transaction, so a handler that fails after a write leaves that write
  in place; the model returns the store reached at the point of failure.

  Identifiers are text columns (\<open>string\<close>). The status columns are text columns
  holding the values the README enumerates; they are datatypes here, and a status
  arriving in a request body is a string that the handler's validator parses.
  Time stamps are natural numbers. The columns \<^verbatim>\<open>password\<close>, \<^verbatim>\<open>budget\<close>,
  \<^verbatim>\<open>createdAt\<close> and \<^verbatim>\<open>updatedAt\<close> are left out: no handler below branches on them.
\<close>

subsection \<open>Rows\<close>

datatype role = Admin | Buyer | ProblemSolver

datatype project_status = Open | Assigned | InProgress | Completed

datatype request_status = RPending | RAccepted | RRejected

datatype task_status = TPending | TInProgress | TSubmitted | TCompleted | TRejected

datatype submission_status = SPending | SAccepted | SRejected

record user =
  uid :: string
  uname :: string
  uemail :: string
  urole :: role
  bio :: "string option"
  skills :: "string list"
  experience :: "string option"
  portfolio :: "string option"

record project =
  pid :: string
  ptitle :: string
  pdescription :: string
  buyerId :: string
  assignedSolverId :: "string option"
  pstatus :: project_status
  pdeadline :: "nat option"

record request =
  rid :: string
  rprojectId :: string
  rsolverId :: string
  rmessage :: "string option"
  rstatus :: request_status

record task =
  tid :: string
  tprojectId :: string
  tuserId :: string
  ttitle :: string
  tdescription :: string
  tdeadline :: nat
  tstatus :: task_status

record submission =
  sid :: string
  staskId :: string
  sprojectId :: string
  ssolverId :: string
  filePath :: string
  fileName :: string
  fileSize :: nat
  smessage :: "string option"
  sstatus :: submission_status
  reviewedAt :: "nat option"

text \<open>The store: the five tables in insertion order, and the paths present in the
  uploads directory.\<close>

record db =
  users :: "user list"
  projects :: "project list"
  requests :: "request list"
  tasks :: "task list"
  submissions :: "submission list"
  files :: "string list"

subsection \<open>Responses and store errors\<close>

text \<open>A response is its HTTP status and the \<^verbatim>\<open>message\<close> field of its JSON body
  (empty when the body carries an entity and no message).\<close>

datatype response = Response nat string

fun status_code :: "response \<Rightarrow> nat" where
  "status_code (Response c m) = c"

text \<open>The Prisma errors the handlers can meet: a unique constraint (\<^verbatim>\<open>P2002\<close>), a
  foreign key (\<^verbatim>\<open>P2003\<close>), a missing row (\<^verbatim>\<open>P2025\<close>), and a request the database
  itself refuses, which Prisma reports without a code.\<close>

datatype prisma_error = P2002 | P2003 | P2025 | UnknownRequestError

definition server_error :: response where
  "server_error = Response 500 ''Server error''"

definition validation_failed :: response where
  "validation_failed = Response 400 ''validation''"

subsection \<open>The store's operations (Prisma over the SQL schema)\<close>

text \<open>A PostgreSQL \<^verbatim>\<open>TEXT\<close> value cannot hold the character U+0000: a statement that
  carries one is refused before it runs. So no stored text holds it; a write is refused
  when a value it writes does; and a key that holds it matches no row and makes the
  query fail instead of finding nothing.\<close>

definition text_ok :: "string \<Rightarrow> bool" where
  "text_ok s = (CHR 0x00 \<notin> set s)"

definition opt_text_ok :: "string option \<Rightarrow> bool" where
  "opt_text_ok m = (case m of None \<Rightarrow> True | Some s \<Rightarrow> text_ok s)"

text \<open>An update is refused when a value it writes holds U+0000. A value equal to the one
  stored is accepted: either the column is not written at all, or the value written was
  read from the store.\<close>

definition written_ok :: "string \<Rightarrow> string \<Rightarrow> bool" where
  "written_ok old new = (new = old \<or> text_ok new)"

definition opt_written_ok :: "string option \<Rightarrow> string option \<Rightarrow> bool" where
  "opt_written_ok old new = (new = old \<or> opt_text_ok new)"

text \<open>The answer to a look-up by \<open>key\<close> that found no row: 404 with the handler's message,
  or the 500 of the handler's \<^verbatim>\<open>catch\<close> when the query failed.\<close>

definition not_found :: "string \<Rightarrow> string \<Rightarrow> response" where
  "not_found key msg = (if text_ok key then Response 404 msg else server_error)"

definition user_findUnique :: "db \<Rightarrow> string \<Rightarrow> user option" where
  "user_findUnique d i = find (\<lambda>u. uid u = i) (users d)"

definition project_findUnique :: "db \<Rightarrow> string \<Rightarrow> project option" where
  "project_findUnique d i = find (\<lambda>p. pid p = i) (projects d)"

definition task_findUnique :: "db \<Rightarrow> string \<Rightarrow> task option" where
  "task_findUnique d i = find (\<lambda>t. tid t = i) (tasks d)"

definition submission_findUnique :: "db \<Rightarrow> string \<Rightarrow> submission option" where
  "submission_findUnique d i = find (\<lambda>s. sid s = i) (submissions d)"

definition submission_findByTask :: "db \<Rightarrow> string \<Rightarrow> submission option" where
  "submission_findByTask d t = find (\<lambda>s. staskId s = t) (submissions d)"

definition request_findByPair :: "db \<Rightarrow> string \<Rightarrow> string \<Rightarrow> request option" where
  "request_findByPair d p s = find (\<lambda>r. rprojectId r = p \<and> rsolverId r = s) (requests d)"

definition task_findMany :: "db \<Rightarrow> (task \<Rightarrow> bool) \<Rightarrow> task list" where
  "task_findMany d P = filter P (tasks d)"

text \<open>\<^verbatim>\<open>users_pkey\<close> aside, a user row is only ever updated: \<^verbatim>\<open>P2025\<close> when no row
  has the id.\<close>

definition user_written_ok :: "user \<Rightarrow> user \<Rightarrow> bool" where
  "user_written_ok u u' =
     (written_ok (uname u) (uname u') \<and> written_ok (uemail u) (uemail u') \<and>
      opt_written_ok (bio u) (bio u') \<and>
      (skills u' = skills u \<or> list_all text_ok (skills u')) \<and>
      opt_written_ok (experience u) (experience u') \<and>
      opt_written_ok (portfolio u) (portfolio u'))"

definition user_update :: "db \<Rightarrow> string \<Rightarrow> (user \<Rightarrow> user) \<Rightarrow> prisma_error + db" where
  "user_update d i f =
     (if user_findUnique d i = None then Inl (if text_ok i then P2025 else UnknownRequestError)
      else if \<not> list_all (\<lambda>u. user_written_ok u (f u)) (filter (\<lambda>u. uid u = i) (users d))
        then Inl UnknownRequestError
      else Inr (d\<lparr>users := map (\<lambda>u. if uid u = i then f u else u) (users d)\<rparr>))"

text \<open>\<^verbatim>\<open>projects_pkey\<close>, \<^verbatim>\<open>projects_buyerId_fkey\<close>, \<^verbatim>\<open>projects_assignedSolverId_fkey\<close>.\<close>

definition project_fk_ok :: "db \<Rightarrow> project \<Rightarrow> bool" where
  "project_fk_ok d p =
     (user_findUnique d (buyerId p) \<noteq> None \<and>
      (case assignedSolverId p of None \<Rightarrow> True | Some s \<Rightarrow> user_findUnique d s \<noteq> None))"

definition project_create :: "db \<Rightarrow> project \<Rightarrow> prisma_error + db" where
  "project_create d p =
     (if \<not> (text_ok (pid p) \<and> text_ok (ptitle p) \<and> text_ok (pdescription p))
        then Inl UnknownRequestError
      else if project_findUnique d (pid p) \<noteq> None then Inl P2002
      else if \<not> project_fk_ok d p then Inl P2003
      else Inr (d\<lparr>projects := projects d @ [p]\<rparr>))"

text \<open>An update re-checks a foreign key only when it changes the column. The handlers
  update a project's status and its assigned solver only; the solver's id is text that
  the foreign key looks up among the stored users.\<close>

definition project_update :: "db \<Rightarrow> string \<Rightarrow> (project \<Rightarrow> project) \<Rightarrow> prisma_error + db" where
  "project_update d i f =
     (case project_findUnique d i of
        None \<Rightarrow> Inl (if text_ok i then P2025 else UnknownRequestError)
      | Some p \<Rightarrow>
          if (buyerId (f p) \<noteq> buyerId p \<or> assignedSolverId (f p) \<noteq> assignedSolverId p)
             \<and> \<not> project_fk_ok d (f p) then Inl P2003
          else Inr (d\<lparr>projects := map (\<lambda>q. if pid q = i then f q else q) (projects d)\<rparr>))"

text \<open>\<^verbatim>\<open>requests_pkey\<close>, the unique index \<^verbatim>\<open>requests_projectId_solverId_key\<close>, and the
  two foreign keys.\<close>

definition request_create :: "db \<Rightarrow> request \<Rightarrow> prisma_error + db" where
  "request_create d r =
     (if \<not> (text_ok (rid r) \<and> opt_text_ok (rmessage r)) then Inl UnknownRequestError
      else if find (\<lambda>q. rid q = rid r) (requests d) \<noteq> None then Inl P2002
      else if request_findByPair d (rprojectId r) (rsolverId r) \<noteq> None then Inl P2002
      else if project_findUnique d (rprojectId r) = None \<or> user_findUnique d (rsolverId r) = None
        then Inl P2003
      else Inr (d\<lparr>requests := requests d @ [r]\<rparr>))"

definition request_updateMany :: "db \<Rightarrow> (request \<Rightarrow> bool) \<Rightarrow> (request \<Rightarrow> request) \<Rightarrow> db" where
  "request_updateMany d P f = d\<lparr>requests := map (\<lambda>r. if P r then f r else r) (requests d)\<rparr>"

text \<open>\<^verbatim>\<open>tasks_pkey\<close> and the two foreign keys.\<close>

definition task_create :: "db \<Rightarrow> task \<Rightarrow> prisma_error + db" where
  "task_create d t =
     (if \<not> (text_ok (tid t) \<and> text_ok (ttitle t) \<and> text_ok (tdescription t))
        then Inl UnknownRequestError
      else if task_findUnique d (tid t) \<noteq> None then Inl P2002
      else if project_findUnique d (tprojectId t) = None \<or> user_findUnique d (tuserId t) = None
        then Inl P2003
      else Inr (d\<lparr>tasks := tasks d @ [t]\<rparr>))"

definition task_written_ok :: "task \<Rightarrow> task \<Rightarrow> bool" where
  "task_written_ok t t' =
     (written_ok (ttitle t) (ttitle t') \<and> written_ok (tdescription t) (tdescription t'))"

definition task_update :: "db \<Rightarrow> string \<Rightarrow> (task \<Rightarrow> task) \<Rightarrow> prisma_error + db" where
  "task_update d i f =
     (if task_findUnique d i = None then Inl (if text_ok i then P2025 else UnknownRequestError)
      else if \<not> list_all (\<lambda>t. task_written_ok t (f t)) (filter (\<lambda>t. tid t = i) (tasks d))
        then Inl UnknownRequestError
      else Inr (d\<lparr>tasks := map (\<lambda>t. if tid t = i then f t else t) (tasks d)\<rparr>))"

text \<open>\<^verbatim>\<open>submissions_pkey\<close>, the unique index \<^verbatim>\<open>submissions_taskId_key\<close>, and the three
  foreign keys.\<close>

definition submission_create :: "db \<Rightarrow> submission \<Rightarrow> prisma_error + db" where
  "submission_create d s =
     (if \<not> (text_ok (sid s) \<and> text_ok (filePath s) \<and> text_ok (fileName s) \<and>
             opt_text_ok (smessage s))
        then Inl UnknownRequestError
      else if submission_findUnique d (sid s) \<noteq> None then Inl P2002
      else if submission_findByTask d (staskId s) \<noteq> None then Inl P2002
      else if task_findUnique d (staskId s) = None \<or> project_findUnique d (sprojectId s) = None
              \<or> user_findUnique d (ssolverId s) = None
        then Inl P2003
      else Inr (d\<lparr>submissions := submissions d @ [s]\<rparr>))"

definition submission_written_ok :: "submission \<Rightarrow> submission \<Rightarrow> bool" where
  "submission_written_ok s s' =
     (written_ok (filePath s) (filePath s') \<and> written_ok (fileName s) (fileName s') \<and>
      opt_written_ok (smessage s) (smessage s'))"

definition submission_updateByTask ::
  "db \<Rightarrow> string \<Rightarrow> (submission \<Rightarrow> submission) \<Rightarrow> prisma_error + db" where
  "submission_updateByTask d t f =
     (if submission_findByTask d t = None
        then Inl (if text_ok t then P2025 else UnknownRequestError)
      else if \<not> list_all (\<lambda>s. submission_written_ok s (f s))
                    (filter (\<lambda>s. staskId s = t) (submissions d))
        then Inl UnknownRequestError
      else Inr (d\<lparr>submissions := map (\<lambda>s. if staskId s = t then f s else s) (submissions d)\<rparr>))"

definition submission_update ::
  "db \<Rightarrow> string \<Rightarrow> (submission \<Rightarrow> submission) \<Rightarrow> prisma_error + db" where
  "submission_update d i f =
     (if submission_findUnique d i = None
        then Inl (if text_ok i then P2025 else UnknownRequestError)
      else if \<not> list_all (\<lambda>s. submission_written_ok s (f s))
                    (filter (\<lambda>s. sid s = i) (submissions d))
        then Inl UnknownRequestError
      else Inr (d\<lparr>submissions := map (\<lambda>s. if sid s = i then f s else s) (submissions d)\<rparr>))"

text \<open>The uploads directory: \<^verbatim>\<open>fs.existsSync\<close>, \<^verbatim>\<open>fs.unlinkSync\<close>, and the write multer
  makes before the handler runs.\<close>

definition fs_exists :: "db \<Rightarrow> string \<Rightarrow> bool" where
  "fs_exists d p = (p \<in> set (files d))"

definition fs_unlink :: "db \<Rightarrow> string \<Rightarrow> db" where
  "fs_unlink d p = d\<lparr>files := removeAll p (files d)\<rparr>"

definition fs_write :: "db \<Rightarrow> string \<Rightarrow> db" where
  "fs_write d p = d\<lparr>files := List.insert p (files d)\<rparr>"

subsection \<open>Validators and the authentication middleware\<close>

text \<open>express-validator's \<^verbatim>\<open>trim()\<close> is validator.js \<^verbatim>\<open>rtrim(ltrim(str))\<close>: it strips
  the characters JavaScript's \<^verbatim>\<open>\s\<close> matches from both ends. A \<open>string\<close> here is the
  UTF-8 encoding of the JavaScript string, so each of these characters is the byte
  sequence below (U+0009 to U+000D, U+0020, U+00A0, U+1680, U+2000 to U+200A, U+2028,
  U+2029, U+202F, U+205F, U+3000, U+FEFF). A field that is absent validates as the empty
  string.\<close>

definition js_space :: "string list" where
  "js_space =
     [[CHR 0x09], [CHR 0x0A], [CHR 0x0B], [CHR 0x0C], [CHR 0x0D], [CHR 0x20],
      [CHR 0xC2, CHR 0xA0], [CHR 0xE1, CHR 0x9A, CHR 0x80],
      [CHR 0xE2, CHR 0x80, CHR 0x80], [CHR 0xE2, CHR 0x80, CHR 0x81],
      [CHR 0xE2, CHR 0x80, CHR 0x82], [CHR 0xE2, CHR 0x80, CHR 0x83],
      [CHR 0xE2, CHR 0x80, CHR 0x84], [CHR 0xE2, CHR 0x80, CHR 0x85],
      [CHR 0xE2, CHR 0x80, CHR 0x86], [CHR 0xE2, CHR 0x80, CHR 0x87],
      [CHR 0xE2, CHR 0x80, CHR 0x88], [CHR 0xE2, CHR 0x80, CHR 0x89],
      [CHR 0xE2, CHR 0x80, CHR 0x8A], [CHR 0xE2, CHR 0x80, CHR 0xA8],
      [CHR 0xE2, CHR 0x80, CHR 0xA9], [CHR 0xE2, CHR 0x80, CHR 0xAF],
      [CHR 0xE2, CHR 0x81, CHR 0x9F], [CHR 0xE3, CHR 0x80, CHR 0x80],
      [CHR 0xEF, CHR 0xBB, CHR 0xBF]]"

text \<open>\<open>drop_space ws s\<close>: the rest of \<open>s\<close> after one leading white-space character, if
  \<open>s\<close> starts with one.\<close>

fun drop_space :: "string list \<Rightarrow> string \<Rightarrow> string option" where
  "drop_space [] s = None"
| "drop_space (w # ws) s =
     (if take (length w) s = w then Some (drop (length w) s) else drop_space ws s)"

text \<open>The loop that strips leading white space. Every round removes at least one byte,
  so \<open>length s\<close> rounds are enough (lemma \<open>strip_spaces_enough\<close> below).\<close>

fun strip_spaces :: "nat \<Rightarrow> string list \<Rightarrow> string \<Rightarrow> string" where
  "strip_spaces 0 ws s = s"
| "strip_spaces (Suc n) ws s =
     (case drop_space ws s of None \<Rightarrow> s | Some r \<Rightarrow> strip_spaces n ws r)"

definition ltrim :: "string \<Rightarrow> string" where
  "ltrim s = strip_spaces (length s) js_space s"

text \<open>Stripping at the end is stripping at the start of the reversed bytes.\<close>

definition rtrim :: "string \<Rightarrow> string" where
  "rtrim s = rev (strip_spaces (length s) (map rev js_space) (rev s))"

definition trim :: "string \<Rightarrow> string" where
  "trim s = rtrim (ltrim s)"

text \<open>A date arriving in a body is its text together with the value of
  \<^verbatim>\<open>new Date(text)\<close>: \<open>None\<close> is JavaScript's Invalid Date, which Prisma refuses.\<close>

type_synonym date_input = "string \<times> nat option"

text \<open>\<^verbatim>\<open>isIn(['accepted', 'rejected'])\<close> and
  \<^verbatim>\<open>isIn(['pending', 'in_progress', 'submitted', 'completed', 'rejected'])\<close>.\<close>

definition parse_review_status :: "string \<Rightarrow> submission_status option" where
  "parse_review_status s =
     (if s = ''accepted'' then Some SAccepted
      else if s = ''rejected'' then Some SRejected
      else None)"

definition parse_task_status :: "string \<Rightarrow> task_status option" where
  "parse_task_status s =
     (if s = ''pending'' then Some TPending
      else if s = ''in_progress'' then Some TInProgress
      else if s = ''submitted'' then Some TSubmitted
      else if s = ''completed'' then Some TCompleted
      else if s = ''rejected'' then Some TRejected
      else None)"

text \<open>Modelled from the spec: \<^verbatim>\<open>middleware/auth.js\<close> (\<^verbatim>\<open>protect\<close>, \<^verbatim>\<open>authorize\<close>) is
  imported by every route file and is not among the sources. Following the
  specification's Authorization Guard (the guard "checks actor role" and replaces the
  ambient current user by an explicit actor), \<open>protect\<close> resolves the token's user id to
  the stored user, refusing an unknown one, and \<open>authorize\<close> admits the listed roles.\<close>

definition protect :: "db \<Rightarrow> string \<Rightarrow> response + user" where
  "protect d actor =
     (case user_findUnique d actor of
        None \<Rightarrow> Inl (Response 401 ''Not authorized'')
      | Some u \<Rightarrow> Inr u)"

definition authorize :: "role list \<Rightarrow> user \<Rightarrow> bool" where
  "authorize roles u = (urole u \<in> set roles)"

definition forbidden_role :: response where
  "forbidden_role = Response 403 ''Role not authorized''"

subsection \<open>POST /api/projects\<close>

text \<open>\<^verbatim>\<open>deadline ? new Date(deadline) : undefined\<close>: an absent or empty deadline leaves the
  column null; an Invalid Date makes the create throw.\<close>

definition optional_date :: "date_input option \<Rightarrow> nat option option" where
  "optional_date dl =
     (case dl of
        None \<Rightarrow> Some None
      | Some (s, v) \<Rightarrow> if s = [] then Some None else map_option Some v)"

definition createProject ::
  "db \<Rightarrow> string \<Rightarrow> string \<Rightarrow> string \<Rightarrow> string \<Rightarrow> date_input option \<Rightarrow> response \<times> db" where
  "createProject d actor newId title description deadline =
     (case protect d actor of
        Inl r \<Rightarrow> (r, d)
      | Inr u \<Rightarrow>
          if \<not> authorize [Buyer] u then (forbidden_role, d)
          else if trim title = [] \<or> trim description = [] then (validation_failed, d)
          else
            (case optional_date deadline of
               None \<Rightarrow> (server_error, d)
             | Some dl \<Rightarrow>
                 (case project_create d
                    \<lparr>pid = newId, ptitle = trim title, pdescription = trim description,
                     buyerId = uid u, assignedSolverId = None, pstatus = Open, pdeadline = dl\<rparr> of
                    Inl e \<Rightarrow> (server_error, d)
                  | Inr d1 \<Rightarrow> (Response 201 [], d1))))"

subsection \<open>PUT /api/projects/:id/assign\<close>

definition assignSolver :: "db \<Rightarrow> string \<Rightarrow> string \<Rightarrow> string \<Rightarrow> response \<times> db" where
  "assignSolver d actor projectId solverId =
     (case protect d actor of
        Inl r \<Rightarrow> (r, d)
      | Inr u \<Rightarrow>
          if \<not> authorize [Buyer] u then (forbidden_role, d)
          else if solverId = [] then (validation_failed, d)
          else
            (case project_findUnique d projectId of
               None \<Rightarrow> (not_found projectId ''Project not found'', d)
             | Some project \<Rightarrow>
                 if buyerId project \<noteq> uid u then (Response 403 ''Not authorized'', d)
                 else
                   (case project_update d projectId
                      (\<lambda>p. p\<lparr>assignedSolverId := Some solverId, pstatus := Assigned\<rparr>) of
                      Inl e \<Rightarrow> (server_error, d)
                    | Inr d1 \<Rightarrow>
                        let d2 = request_updateMany d1
                                   (\<lambda>r. rprojectId r = pid project \<and> rsolverId r = solverId)
                                   (\<lambda>r. r\<lparr>rstatus := RAccepted\<rparr>);
                            d3 = request_updateMany d2
                                   (\<lambda>r. rprojectId r = pid project \<and> rsolverId r \<noteq> solverId)
                                   (\<lambda>r. r\<lparr>rstatus := RRejected\<rparr>)
                        in (Response 200 ''Project assigned successfully'', d3))))"

subsection \<open>POST /api/submissions\<close>

text \<open>The multipart file multer hands to the handler: its path on disk, its original
  name and its size. Uploads that multer itself refuses (not a ZIP, over 50 MB) never
  reach the handler and are not modelled.\<close>

datatype upload = NoFile | Upload string string nat

text \<open>\<^verbatim>\<open>if (fs.existsSync(p)) fs.unlinkSync(p)\<close>: the handler does this to the old file
  of a submission it replaces, and its \<^verbatim>\<open>catch\<close> block does it to the uploaded file.\<close>

definition unlink_if_exists :: "db \<Rightarrow> string \<Rightarrow> db" where
  "unlink_if_exists d p = (if fs_exists d p then fs_unlink d p else d)"

definition catch_cleanup :: "db \<Rightarrow> string \<Rightarrow> db" where
  "catch_cleanup d path = unlink_if_exists d path"

text \<open>The block under \<^verbatim>\<open>if (existingSubmission)\<close>: the old file goes, the row is
  updated in place, the task is marked submitted.\<close>

definition replaceSubmission ::
  "db \<Rightarrow> submission \<Rightarrow> string \<Rightarrow> string \<Rightarrow> string \<Rightarrow> nat \<Rightarrow> string option \<Rightarrow> response \<times> db" where
  "replaceSubmission d existing taskId path name sz message =
     (let d1 = unlink_if_exists d (filePath existing) in
      case submission_updateByTask d1 taskId
             (\<lambda>s. s\<lparr>filePath := path, fileName := name, fileSize := sz,
                     smessage := (case message of
                                    None \<Rightarrow> smessage existing
                                  | Some m \<Rightarrow> if m = [] then smessage existing else Some m),
                     sstatus := SPending\<rparr>) of
        Inl e \<Rightarrow> (server_error, catch_cleanup d1 path)
      | Inr d2 \<Rightarrow>
          (case task_update d2 taskId (\<lambda>t. t\<lparr>tstatus := TSubmitted\<rparr>) of
             Inl e \<Rightarrow> (server_error, catch_cleanup d2 path)
           | Inr d3 \<Rightarrow> (Response 200 ''Submission updated successfully'', d3)))"

text \<open>The rest of the handler, reached when the task has no submission yet: a new row
  (its status column defaults to pending), and the task is marked submitted.\<close>

definition newSubmission ::
  "db \<Rightarrow> user \<Rightarrow> task \<Rightarrow> string \<Rightarrow> string \<Rightarrow> string \<Rightarrow> string \<Rightarrow> nat \<Rightarrow> string option
     \<Rightarrow> response \<times> db" where
  "newSubmission d u task newId taskId path name sz message =
     (case submission_create d
             \<lparr>sid = newId, staskId = taskId, sprojectId = tprojectId task, ssolverId = uid u,
              filePath = path, fileName = name, fileSize = sz, smessage = message,
              sstatus = SPending, reviewedAt = None\<rparr> of
        Inl e \<Rightarrow> (server_error, catch_cleanup d path)
      | Inr d1 \<Rightarrow>
          (case task_update d1 taskId (\<lambda>t. t\<lparr>tstatus := TSubmitted\<rparr>) of
             Inl e \<Rightarrow> (server_error, catch_cleanup d1 path)
           | Inr d2 \<Rightarrow> (Response 201 ''Submission created successfully'', d2)))"

text \<open>The handler once multer has stored the file at \<open>path\<close>: the task and its project
  are looked up, the solver must be the project's assigned solver, and the handler
  goes on to one of the two blocks above.\<close>

definition submitFile ::
  "db \<Rightarrow> user \<Rightarrow> string \<Rightarrow> string \<Rightarrow> string \<Rightarrow> string \<Rightarrow> nat \<Rightarrow> string option \<Rightarrow> response \<times> db" where
  "submitFile d u newId taskId path name sz message =
     (if taskId = [] then (validation_failed, d)
      else
        (case task_findUnique d taskId of
           None \<Rightarrow>
             if text_ok taskId then (Response 404 ''Task not found'', fs_unlink d path)
             else (server_error, catch_cleanup d path)
         | Some task \<Rightarrow>
             (case project_findUnique d (tprojectId task) of
                None \<Rightarrow> (server_error, catch_cleanup d path)
              | Some project \<Rightarrow>
                  if assignedSolverId project \<noteq> Some (uid u)
                  then (Response 403 ''Not authorized'', fs_unlink d path)
                  else
                    (case submission_findByTask d taskId of
                       Some existing \<Rightarrow> replaceSubmission d existing taskId path name sz message
                     | None \<Rightarrow> newSubmission d u task newId taskId path name sz message))))"

text \<open>The route: \<^verbatim>\<open>protect\<close>, \<^verbatim>\<open>authorize('problem_solver')\<close>, \<^verbatim>\<open>upload.single('file')\<close>
  (which writes the file), the validator, the handler.\<close>

definition createSubmission ::
  "db \<Rightarrow> string \<Rightarrow> string \<Rightarrow> upload \<Rightarrow> string \<Rightarrow> string option \<Rightarrow> response \<times> db" where
  "createSubmission d0 actor newId file taskId message =
     (case protect d0 actor of
        Inl r \<Rightarrow> (r, d0)
      | Inr u \<Rightarrow>
          if \<not> authorize [ProblemSolver] u then (forbidden_role, d0)
          else
            (case file of
               NoFile \<Rightarrow>
                 if taskId = [] then (validation_failed, d0)
                 else (Response 400 ''ZIP file is required'', d0)
             | Upload path name sz \<Rightarrow>
                 submitFile (fs_write d0 path) u newId taskId path name sz message))"

subsection \<open>PUT /api/submissions/:id/review\<close>

definition review_ok :: "string \<Rightarrow> response" where
  "review_ok status = Response 200 (''Submission '' @ status @ '' successfully'')"

text \<open>The block under \<^verbatim>\<open>if (status === 'accepted')\<close>: the task is completed, then all
  tasks of the project are read back and the project is completed when there is at least
  one and all are completed.\<close>

definition review_accepted :: "db \<Rightarrow> submission \<Rightarrow> string \<Rightarrow> response \<times> db" where
  "review_accepted d1 sub status =
     (case task_update d1 (staskId sub) (\<lambda>t. t\<lparr>tstatus := TCompleted\<rparr>) of
        Inl e \<Rightarrow> (server_error, d1)
      | Inr d2 \<Rightarrow>
          let allTasks = task_findMany d2 (\<lambda>t. tprojectId t = sprojectId sub);
              allCompleted = list_all (\<lambda>t. tstatus t = TCompleted) allTasks
          in
          if allCompleted \<and> length allTasks > 0 then
            (case project_update d2 (sprojectId sub) (\<lambda>p. p\<lparr>pstatus := Completed\<rparr>) of
               Inl e \<Rightarrow> (server_error, d2)
             | Inr d3 \<Rightarrow> (review_ok status, d3))
          else (review_ok status, d2))"

text \<open>The block under \<^verbatim>\<open>else if (status === 'rejected')\<close>.\<close>

definition review_rejected :: "db \<Rightarrow> submission \<Rightarrow> string \<Rightarrow> response \<times> db" where
  "review_rejected d1 sub status =
     (case task_update d1 (staskId sub) (\<lambda>t. t\<lparr>tstatus := TRejected\<rparr>) of
        Inl e \<Rightarrow> (server_error, d1)
      | Inr d2 \<Rightarrow> (review_ok status, d2))"

definition reviewSubmission :: "db \<Rightarrow> string \<Rightarrow> string \<Rightarrow> string \<Rightarrow> nat \<Rightarrow> response \<times> db" where
  "reviewSubmission d actor subId status now =
     (case protect d actor of
        Inl r \<Rightarrow> (r, d)
      | Inr u \<Rightarrow>
          if \<not> authorize [Buyer] u then (forbidden_role, d)
          else
            (case parse_review_status status of
               None \<Rightarrow> (validation_failed, d)
             | Some st \<Rightarrow>
                 (case submission_findUnique d subId of
                    None \<Rightarrow> (not_found subId ''Submission not found'', d)
                  | Some sub \<Rightarrow>
                      (case project_findUnique d (sprojectId sub) of
                         None \<Rightarrow> (server_error, d)
                       | Some project \<Rightarrow>
                           if buyerId project \<noteq> uid u then (Response 403 ''Not authorized'', d)
                           else
                             (case submission_update d subId
                                (\<lambda>s. s\<lparr>sstatus := st, reviewedAt := Some now\<rparr>) of
                                Inl e \<Rightarrow> (server_error, d)
                              | Inr d1 \<Rightarrow>
                                  if st = SAccepted then review_accepted d1 sub status
                                  else if st = SRejected then review_rejected d1 sub status
                                  else (review_ok status, d1))))))"

subsection \<open>POST /api/tasks\<close>

definition createTask ::
  "db \<Rightarrow> string \<Rightarrow> string \<Rightarrow> string \<Rightarrow> string \<Rightarrow> string \<Rightarrow> date_input \<Rightarrow> response \<times> db" where
  "createTask d actor newId projectId title description deadline =
     (case protect d actor of
        Inl r \<Rightarrow> (r, d)
      | Inr u \<Rightarrow>
          if \<not> authorize [ProblemSolver] u then (forbidden_role, d)
          else if projectId = [] \<or> trim title = [] \<or> trim description = [] \<or> fst deadline = []
          then (validation_failed, d)
          else
            (case project_findUnique d projectId of
               None \<Rightarrow> (not_found projectId ''Project not found'', d)
             | Some project \<Rightarrow>
                 if assignedSolverId project = None \<or> assignedSolverId project = Some []
                 then (Response 400 ''Project is not assigned yet'', d)
                 else if assignedSolverId project \<noteq> Some (uid u)
                 then (Response 403 ''Not authorized to create tasks for this project'', d)
                 else
                   (case snd deadline of
                      None \<Rightarrow> (server_error, d)
                    | Some dl \<Rightarrow>
                        (case task_create d
                           \<lparr>tid = newId, tprojectId = projectId, tuserId = uid u,
                            ttitle = trim title, tdescription = trim description,
                            tdeadline = dl, tstatus = TPending\<rparr> of
                           Inl e \<Rightarrow> (server_error, d)
                         | Inr d1 \<Rightarrow>
                             if pstatus project = Assigned then
                               (case project_update d1 projectId (\<lambda>p. p\<lparr>pstatus := InProgress\<rparr>) of
                                  Inl e \<Rightarrow> (server_error, d1)
                                | Inr d2 \<Rightarrow> (Response 201 [], d2))
                             else (Response 201 [], d1)))))"

subsection \<open>PUT /api/tasks/:id\<close>

text \<open>The handler's \<^verbatim>\<open>updateData\<close> object: a field is present once the handler has
  assigned it. A present deadline holds the value of \<^verbatim>\<open>new Date(deadline)\<close>.\<close>

record task_updateData =
  ud_title :: "string option"
  ud_description :: "string option"
  ud_deadline :: "nat option option"
  ud_status :: "task_status option"

definition empty_updateData :: task_updateData where
  "empty_updateData = \<lparr>ud_title = None, ud_description = None, ud_deadline = None, ud_status = None\<rparr>"

definition apply_updateData :: "task_updateData \<Rightarrow> task \<Rightarrow> task" where
  "apply_updateData ud t =
     t\<lparr>ttitle := (case ud_title ud of None \<Rightarrow> ttitle t | Some x \<Rightarrow> x),
       tdescription := (case ud_description ud of None \<Rightarrow> tdescription t | Some x \<Rightarrow> x),
       tdeadline := (case ud_deadline ud of Some (Some x) \<Rightarrow> x | _ \<Rightarrow> tdeadline t),
       tstatus := (case ud_status ud of None \<Rightarrow> tstatus t | Some x \<Rightarrow> x)\<rparr>"

text \<open>The status part of the body after \<^verbatim>\<open>optional().isIn([...])\<close>: absent, or one of
  the five task statuses; \<open>None\<close> when the validator refuses it.\<close>

definition optional_task_status :: "string option \<Rightarrow> task_status option option" where
  "optional_task_status status =
     (case status of None \<Rightarrow> Some None | Some s \<Rightarrow> map_option Some (parse_task_status s))"

definition solver_updateData ::
  "string \<Rightarrow> string \<Rightarrow> date_input \<Rightarrow> task_status option \<Rightarrow> task_updateData" where
  "solver_updateData title description deadline st =
     \<lparr>ud_title = (if title \<noteq> [] then Some title else None),
      ud_description = (if description \<noteq> [] then Some description else None),
      ud_deadline = (if fst deadline \<noteq> [] then Some (snd deadline) else None),
      ud_status = (case st of
                     None \<Rightarrow> None
                   | Some s \<Rightarrow> if s \<in> set [TPending, TInProgress, TSubmitted] then Some s else None)\<rparr>"

definition buyer_updateData :: "task_status option \<Rightarrow> task_updateData" where
  "buyer_updateData st =
     empty_updateData\<lparr>ud_status :=
       (case st of
          None \<Rightarrow> None
        | Some s \<Rightarrow> if s \<in> set [TCompleted, TRejected] then Some s else None)\<rparr>"

text \<open>The two role blocks of the handler: each either answers 403 or fills
  \<^verbatim>\<open>updateData\<close>; a role that is neither (an admin) leaves it empty. The included
  \<^verbatim>\<open>task.project\<close> is read only inside the blocks.\<close>

definition role_updateData ::
  "db \<Rightarrow> user \<Rightarrow> task \<Rightarrow> string \<Rightarrow> string \<Rightarrow> date_input \<Rightarrow> task_status option
     \<Rightarrow> response + task_updateData" where
  "role_updateData d u task title description deadline st =
     (if urole u = ProblemSolver then
        (case project_findUnique d (tprojectId task) of
           None \<Rightarrow> Inl server_error
         | Some project \<Rightarrow>
             if assignedSolverId project \<noteq> Some (uid u)
             then Inl (Response 403 ''Not authorized'')
             else Inr (solver_updateData title description deadline st))
      else if urole u = Buyer then
        (case project_findUnique d (tprojectId task) of
           None \<Rightarrow> Inl server_error
         | Some project \<Rightarrow>
             if buyerId project \<noteq> uid u
             then Inl (Response 403 ''Not authorized'')
             else Inr (buyer_updateData st))
      else Inr empty_updateData)"

definition updateTask ::
  "db \<Rightarrow> string \<Rightarrow> string \<Rightarrow> string \<Rightarrow> string \<Rightarrow> date_input \<Rightarrow> string option \<Rightarrow> response \<times> db" where
  "updateTask d actor taskId title description deadline status =
     (case protect d actor of
        Inl r \<Rightarrow> (r, d)
      | Inr u \<Rightarrow>
          (case optional_task_status status of
             None \<Rightarrow> (validation_failed, d)
           | Some st \<Rightarrow>
               (case task_findUnique d taskId of
                  None \<Rightarrow> (not_found taskId ''Task not found'', d)
                | Some task \<Rightarrow>
                    (case role_updateData d u task title description deadline st of
                       Inl r \<Rightarrow> (r, d)
                     | Inr updateData \<Rightarrow>
                         if ud_deadline updateData = Some None then (server_error, d)
                         else
                           (case task_update d taskId (apply_updateData updateData) of
                              Inl e \<Rightarrow> (server_error, d)
                            | Inr d1 \<Rightarrow> (Response 200 [], d1))))))"

subsection \<open>POST /api/requests\<close>

text \<open>The handler reads (the project, the existing request) and then inserts. The reads
  and the insert are separate round trips to the store, so they are separate functions:
  \<open>createRequest_checks\<close> is everything up to the insert, \<open>createRequest_insert\<close> is
  \<^verbatim>\<open>prisma.request.create\<close> with the handler's \<^verbatim>\<open>catch\<close>, which answers any \<^verbatim>\<open>P2002\<close> with
  "Request already exists".\<close>

definition createRequest_checks :: "db \<Rightarrow> string \<Rightarrow> string \<Rightarrow> response + user" where
  "createRequest_checks d actor projectId =
     (case protect d actor of
        Inl r \<Rightarrow> Inl r
      | Inr u \<Rightarrow>
          if \<not> authorize [ProblemSolver] u then Inl forbidden_role
          else if projectId = [] then Inl validation_failed
          else
            (case project_findUnique d projectId of
               None \<Rightarrow> Inl (not_found projectId ''Project not found'')
             | Some project \<Rightarrow>
                 if pstatus project \<noteq> Open
                 then Inl (Response 400 ''Project is not open for requests'')
                 else
                   (case request_findByPair d projectId (uid u) of
                      Some existingRequest \<Rightarrow> Inl (Response 400 ''Request already exists'')
                    | None \<Rightarrow> Inr u)))"

definition createRequest_insert ::
  "db \<Rightarrow> user \<Rightarrow> string \<Rightarrow> string \<Rightarrow> string option \<Rightarrow> response \<times> db" where
  "createRequest_insert d u newId projectId message =
     (case request_create d
        \<lparr>rid = newId, rprojectId = projectId, rsolverId = uid u, rmessage = message,
         rstatus = RPending\<rparr> of
        Inl e \<Rightarrow> (if e = P2002 then Response 400 ''Request already exists'' else server_error, d)
      | Inr d1 \<Rightarrow> (Response 201 [], d1))"

definition createRequest ::
  "db \<Rightarrow> string \<Rightarrow> string \<Rightarrow> string \<Rightarrow> string option \<Rightarrow> response \<times> db" where
  "createRequest d actor newId projectId message =
     (case createRequest_checks d actor projectId of
        Inl r \<Rightarrow> (r, d)
      | Inr u \<Rightarrow> createRequest_insert d u newId projectId message)"

subsection \<open>PUT /api/users/:id/assign-buyer and PUT /api/users/profile\<close>

definition assignBuyer :: "db \<Rightarrow> string \<Rightarrow> string \<Rightarrow> response \<times> db" where
  "assignBuyer d actor userId =
     (case protect d actor of
        Inl r \<Rightarrow> (r, d)
      | Inr u \<Rightarrow>
          if \<not> authorize [Admin] u then (forbidden_role, d)
          else
            (case user_update d userId (\<lambda>x. x\<lparr>urole := Buyer\<rparr>) of
               Inl e \<Rightarrow> (if e = P2025 then Response 404 ''User not found'' else server_error, d)
             | Inr d1 \<Rightarrow> (Response 200 ''Buyer role assigned successfully'', d1)))"

definition updateProfile ::
  "db \<Rightarrow> string \<Rightarrow> string option \<Rightarrow> string list option \<Rightarrow> string option \<Rightarrow> string option
     \<Rightarrow> response \<times> db" where
  "updateProfile d actor bio0 skills0 experience0 portfolio0 =
     (case protect d actor of
        Inl r \<Rightarrow> (r, d)
      | Inr u \<Rightarrow>
          (case user_update d (uid u)
             (\<lambda>x. x\<lparr>bio := (case bio0 of None \<Rightarrow> bio x | Some b \<Rightarrow> Some (trim b)),
                    skills := (case skills0 of None \<Rightarrow> skills x | Some s \<Rightarrow> s),
                    experience := (case experience0 of None \<Rightarrow> experience x | Some e \<Rightarrow> Some (trim e)),
                    portfolio := (case portfolio0 of None \<Rightarrow> portfolio x | Some p \<Rightarrow> Some (trim p))\<rparr>) of
             Inl e \<Rightarrow> (server_error, d)
           | Inr d1 \<Rightarrow> (Response 200 ''Profile updated successfully'', d1)))"

subsection \<open>Sequences of requests\<close>

text \<open>One constructor for each handler that writes to the store, with the handler's
  parameters; the read-only GET handlers leave the store as it is.\<close>

datatype op =
    CreateProject string string string string "date_input option"
  | AssignSolver string string string
  | CreateRequest string string string "string option"
  | CreateTask string string string string string date_input
  | UpdateTask string string string string date_input "string option"
  | CreateSubmission string string upload string "string option"
  | ReviewSubmission string string string nat
  | AssignBuyer string string
  | UpdateProfile string "string option" "string list option" "string option" "string option"

fun step :: "db \<Rightarrow> op \<Rightarrow> db" where
  "step d (CreateProject a i t ds dl) = snd (createProject d a i t ds dl)"
| "step d (AssignSolver a p s) = snd (assignSolver d a p s)"
| "step d (CreateRequest a i p m) = snd (createRequest d a i p m)"
| "step d (CreateTask a i p t ds dl) = snd (createTask d a i p t ds dl)"
| "step d (UpdateTask a i t ds dl st) = snd (updateTask d a i t ds dl st)"
| "step d (CreateSubmission a i f t m) = snd (createSubmission d a i f t m)"
| "step d (ReviewSubmission a i st now) = snd (reviewSubmission d a i st now)"
| "step d (AssignBuyer a i) = snd (assignBuyer d a i)"
| "step d (UpdateProfile a b sk e p) = snd (updateProfile d a b sk e p)"

definition run :: "db \<Rightarrow> op list \<Rightarrow> db" where
  "run d ops = foldl step d ops"

subsection \<open>Example stores\<close>

text \<open>An admin, a buyer and three problem solvers; the buyer's project \<^verbatim>\<open>p1\<close> with a
  request from each of the first two solvers, first open and then at work.\<close>

definition mk_user :: "string \<Rightarrow> role \<Rightarrow> user" where
  "mk_user i r = \<lparr>uid = i, uname = i, uemail = i @ ''@example.org'', urole = r, bio = None,
                  skills = [], experience = None, portfolio = None\<rparr>"

definition ex_users :: "user list" where
  "ex_users = [mk_user ''a1'' Admin, mk_user ''b1'' Buyer, mk_user ''s1'' ProblemSolver,
               mk_user ''s2'' ProblemSolver, mk_user ''s3'' ProblemSolver]"

definition ex_project :: "string option \<Rightarrow> project_status \<Rightarrow> project" where
  "ex_project s st = \<lparr>pid = ''p1'', ptitle = ''Site'', pdescription = ''Build it'', buyerId = ''b1'',
                      assignedSolverId = s, pstatus = st, pdeadline = None\<rparr>"

definition ex_request :: "string \<Rightarrow> string \<Rightarrow> request_status \<Rightarrow> request" where
  "ex_request i s st = \<lparr>rid = i, rprojectId = ''p1'', rsolverId = s, rmessage = None, rstatus = st\<rparr>"

definition ex_task :: "task_status \<Rightarrow> task" where
  "ex_task st = \<lparr>tid = ''t1'', tprojectId = ''p1'', tuserId = ''s1'', ttitle = ''Page'',
                 tdescription = ''Landing page'', tdeadline = 100, tstatus = st\<rparr>"

definition ex_empty :: db where
  "ex_empty = \<lparr>users = ex_users, projects = [], requests = [], tasks = [], submissions = [], files = []\<rparr>"

definition ex_open :: db where
  "ex_open = \<lparr>users = ex_users, projects = [ex_project None Open],
              requests = [ex_request ''r1'' ''s1'' RPending, ex_request ''r2'' ''s2'' RPending],
              tasks = [], submissions = [], files = []\<rparr>"

definition ex_working :: "task_status \<Rightarrow> db" where
  "ex_working st = \<lparr>users = ex_users, projects = [ex_project (Some ''s1'') InProgress],
              requests = [ex_request ''r1'' ''s1'' RAccepted, ex_request ''r2'' ''s2'' RRejected],
              tasks = [ex_task st], submissions = [], files = []\<rparr>"

definition ex_assigned :: db where
  "ex_assigned = \<lparr>users = ex_users, projects = [ex_project (Some ''s1'') Assigned],
              requests = [ex_request ''r1'' ''s1'' RAccepted, ex_request ''r2'' ''s2'' RRejected],
              tasks = [], submissions = [], files = []\<rparr>"

text \<open>The same project with its task submitted and under review, and with the
  submission accepted and everything completed.\<close>

definition ex_submission :: "submission_status \<Rightarrow> nat option \<Rightarrow> submission" where
  "ex_submission st rv = \<lparr>sid = ''u1'', staskId = ''t1'', sprojectId = ''p1'', ssolverId = ''s1'',
       filePath = ''uploads/a.zip'', fileName = ''a.zip'', fileSize = 10, smessage = None,
       sstatus = st, reviewedAt = rv\<rparr>"

definition ex_submitted :: db where
  "ex_submitted = (ex_working TSubmitted)\<lparr>submissions := [ex_submission SPending None],
                                          files := [''uploads/a.zip'']\<rparr>"

definition ex_done :: db where
  "ex_done = \<lparr>users = ex_users, projects = [ex_project (Some ''s1'') Completed],
              requests = [ex_request ''r1'' ''s1'' RAccepted, ex_request ''r2'' ''s2'' RRejected],
              tasks = [ex_task TCompleted], submissions = [ex_submission SAccepted (Some 5)],
              files = [''uploads/a.zip'']\<rparr>"

text \<open>The project under review with a second task that is still pending.\<close>

definition ex_two_tasks :: db where
  "ex_two_tasks = ex_submitted\<lparr>tasks := [ex_task TSubmitted, (ex_task TPending)\<lparr>tid := ''t2''\<rparr>]\<rparr>"

subsection \<open>Predicates of the properties\<close>

text \<open>\<open>role_step u u'\<close>: the row \<open>u'\<close> is the user \<open>u\<close> with the role it had, or with the
  role buyer. \<open>workflow_inv\<close>: project ids are unique, a project is open exactly when it
  has no assigned solver, and every submission belongs to a project that has one.\<close>

definition role_step :: "user \<Rightarrow> user \<Rightarrow> bool" where
  "role_step u u' = (uid u' = uid u \<and> (urole u' = urole u \<or> urole u' = Buyer))"

definition workflow_inv :: "db \<Rightarrow> bool" where
  "workflow_inv d =
     (distinct (map pid (projects d)) \<and>
      list_all (\<lambda>p. (pstatus p = Open) = (assignedSolverId p = None)) (projects d) \<and>
      list_all (\<lambda>s. case project_findUnique d (sprojectId s) of
                       None \<Rightarrow> False
                     | Some p \<Rightarrow> assignedSolverId p \<noteq> None) (submissions d))"

text \<open>\<open>may_set ro st\<close>: the role's block of PUT /api/tasks/:id writes the status \<open>st\<close>.\<close>

definition may_set :: "role \<Rightarrow> task_status \<Rightarrow> bool" where
  "may_set ro st =
     (ro = ProblemSolver \<and> st \<in> set [TPending, TInProgress, TSubmitted] \<or>
      ro = Buyer \<and> st \<in> set [TCompleted, TRejected])"

section \<open>Properties\<close>

subsection \<open>Evaluation and lookup lemmas\<close>

lemmas ex_defs = mk_user_def ex_users_def ex_project_def ex_request_def ex_task_def ex_open_def
  ex_working_def ex_empty_def ex_assigned_def

lemmas ex_defs2 = ex_submission_def ex_submitted_def ex_done_def ex_two_tasks_def

lemmas store_defs = user_findUnique_def project_findUnique_def task_findUnique_def
  submission_findUnique_def submission_findByTask_def request_findByPair_def task_findMany_def
  user_update_def project_fk_ok_def project_create_def project_update_def request_create_def
  request_updateMany_def task_create_def task_update_def submission_create_def
  submission_updateByTask_def submission_update_def fs_exists_def fs_unlink_def fs_write_def
  protect_def authorize_def forbidden_role_def server_error_def validation_failed_def
  text_ok_def opt_text_ok_def written_ok_def opt_written_ok_def not_found_def
  user_written_ok_def task_written_ok_def submission_written_ok_def

lemmas trim_defs = trim_def ltrim_def rtrim_def js_space_def

lemma trim_examples:
  "trim ''Site'' = ''Site''" "trim ''Build it'' = ''Build it''"
  "trim ''Page'' = ''Page''" "trim ''Landing page'' = ''Landing page''"
  by (simp_all add: trim_defs)

lemma drop_space_shorter:
  "drop_space ws s = Some r \<Longrightarrow> [] \<notin> set ws \<Longrightarrow> length r < length s \<and> set r \<subseteq> set s"
proof (induction ws)
  case Nil
  then show ?case by simp
next
  case (Cons w ws)
  show ?case
  proof (cases "take (length w) s = w")
    case True
    from Cons.prems(1) True have r: "r = drop (length w) s" by simp
    from Cons.prems(2) have w: "w \<noteq> []" by auto
    from True w have "s \<noteq> []" by (cases s) simp_all
    with w have "length (drop (length w) s) < length s" by simp
    moreover have "set (drop (length w) s) \<subseteq> set s" by (rule set_drop_subset)
    ultimately show ?thesis using r by simp
  next
    case False
    with Cons show ?thesis by simp
  qed
qed

lemma strip_spaces_subset:
  "[] \<notin> set ws \<Longrightarrow> set (strip_spaces n ws s) \<subseteq> set s"
proof (induction n arbitrary: s)
  case 0
  then show ?case by simp
next
  case (Suc n)
  show ?case
  proof (cases "drop_space ws s")
    case None
    then show ?thesis by simp
  next
    case (Some r)
    from drop_space_shorter [OF Some Suc.prems] have "set r \<subseteq> set s" by simp
    with Suc.IH [OF Suc.prems, of r] Some show ?thesis by auto
  qed
qed

lemma drop_space_Nil: "[] \<notin> set ws \<Longrightarrow> drop_space ws [] = None"
  by (induction ws) auto

text \<open>Any two numbers of rounds that are at least the length of the string give the same
  result: the loop has stopped by then.\<close>

lemma strip_spaces_rounds:
  "[] \<notin> set ws \<Longrightarrow> length s \<le> n \<Longrightarrow> length s \<le> m \<Longrightarrow>
     strip_spaces n ws s = strip_spaces m ws s"
proof (induction n arbitrary: m s)
  case 0
  then have "s = []" by simp
  with 0 show ?case by (cases m) (simp_all add: drop_space_Nil)
next
  case (Suc n)
  show ?case
  proof (cases m)
    case 0
    with Suc.prems have "s = []" by simp
    with Suc.prems 0 show ?thesis by (simp add: drop_space_Nil)
  next
    case (Suc k)
    show ?thesis
    proof (cases "drop_space ws s")
      case None
      with Suc show ?thesis by simp
    next
      case (Some r)
      from drop_space_shorter [OF Some Suc.prems(1)] have "length r < length s" by simp
      with Suc.prems(2,3) Suc have "length r \<le> n" "length r \<le> k" by simp_all
      from Suc.IH [OF Suc.prems(1) this] Some Suc show ?thesis by simp
    qed
  qed
qed

lemma strip_spaces_enough:
  "[] \<notin> set ws \<Longrightarrow> length s \<le> n \<Longrightarrow> strip_spaces n ws s = strip_spaces (length s) ws s"
  by (rule strip_spaces_rounds) simp_all

lemma js_space_nonempty: "[] \<notin> set js_space" "[] \<notin> set (map rev js_space)"
  by (simp_all add: js_space_def)

lemma set_trim_subset: "set (trim s) \<subseteq> set s"
proof -
  have "set (ltrim s) \<subseteq> set s"
    unfolding ltrim_def by (rule strip_spaces_subset [OF js_space_nonempty(1)])
  moreover have "set (rtrim t) \<subseteq> set t" for t
    unfolding rtrim_def using strip_spaces_subset [OF js_space_nonempty(2), of "length t" "rev t"]
    by simp
  ultimately show ?thesis unfolding trim_def by blast
qed

lemma text_ok_trim: "text_ok s \<Longrightarrow> text_ok (trim s)"
  using set_trim_subset [of s] by (auto simp: text_ok_def)

lemma find_SomeD: "find P xs = Some x \<Longrightarrow> P x \<and> x \<in> set xs"
  by (induction xs) (auto split: if_splits)

lemma find_NoneD: "find P xs = None \<Longrightarrow> x \<in> set xs \<Longrightarrow> \<not> P x"
  by (induction xs) (auto split: if_splits)

lemma project_findUnique_pid: "project_findUnique d i = Some p \<Longrightarrow> pid p = i \<and> p \<in> set (projects d)"
  unfolding project_findUnique_def by (drule find_SomeD) simp

lemma protect_Inr: "protect d a = Inr u \<Longrightarrow> user_findUnique d a = Some u"
  by (auto simp: protect_def split: option.splits)

lemma project_update_Inr:
  "project_update d i f = Inr d' \<Longrightarrow>
     d' = d\<lparr>projects := map (\<lambda>q. if pid q = i then f q else q) (projects d)\<rparr> \<and>
     project_findUnique d i \<noteq> None"
  by (auto simp: project_update_def split: option.splits if_splits)

lemma assignSolver_ok:
  assumes "assignSolver d actor projectId solverId = (r, d')" and "status_code r = 200"
  shows "\<exists>u project. user_findUnique d actor = Some u \<and> urole u = Buyer \<and> solverId \<noteq> [] \<and>
           project_findUnique d projectId = Some project \<and> buyerId project = uid u \<and>
           d' = d\<lparr>projects := map (\<lambda>q. if pid q = projectId
                                       then q\<lparr>assignedSolverId := Some solverId, pstatus := Assigned\<rparr>
                                       else q) (projects d),
                  requests := map (\<lambda>q. if rprojectId q = projectId
                                       then q\<lparr>rstatus := (if rsolverId q = solverId then RAccepted else RRejected)\<rparr>
                                       else q) (requests d)\<rparr>"
  using assms
  apply (simp add: assignSolver_def forbidden_role_def validation_failed_def server_error_def
        not_found_def
        split: sum.splits if_splits option.splits)
  apply (auto simp: protect_def authorize_def Let_def request_updateMany_def
       dest!: project_update_Inr project_findUnique_pid split: option.splits)
  done

lemma assignSolver_fail:
  assumes "assignSolver d actor projectId solverId = (r, d')" and "status_code r \<noteq> 200"
  shows "d' = d"
  using assms
  by (auto simp add: assignSolver_def Let_def split: sum.splits if_splits option.splits)

lemma unique_key_count:
  "distinct (map f xs) \<Longrightarrow> x \<in> set xs \<Longrightarrow> length (filter (\<lambda>y. f y = f x) xs) = 1"
proof (induction xs)
  case Nil
  then show ?case by simp
next
  case (Cons a xs)
  show ?case
  proof (cases "f a = f x")
    case True
    from Cons.prems have "f a \<notin> f ` set xs" by simp
    with True have "\<forall>y\<in>set xs. f y \<noteq> f x" by (metis imageI)
    then have "filter (\<lambda>y. f y = f x) xs = []" by (simp add: filter_empty_conv)
    with True show ?thesis by simp
  next
    case False
    with Cons show ?thesis by auto
  qed
qed

lemma filter_split_length:
  "length (filter P xs) =
     length (filter (\<lambda>x. P x \<and> Q x) xs) + length (filter (\<lambda>x. P x \<and> \<not> Q x) xs)"
  by (induction xs) auto

lemma find_map_update:
  "(\<And>x. k (f x) = k x) \<Longrightarrow>
     find (\<lambda>x. k x = i) (map (\<lambda>x. if k x = i then f x else x) xs) =
     map_option f (find (\<lambda>x. k x = i) xs)"
  by (induction xs) auto

subsection \<open>Assigning a solver\<close>

text \<open>C1. The specification has \<^verbatim>\<open>assignSolver\<close> fail when the project is not open and when
  the chosen solver has no request for it, leaving projects and requests as they were. The
  handler has neither check. On a project already in progress for solver \<^verbatim>\<open>s1\<close> it answers
  200, hands the project to \<^verbatim>\<open>s2\<close>, puts its status back to assigned and flips both
  requests; on an open project it answers 200 for solver \<^verbatim>\<open>s3\<close>, who never sent a
  request, assigns the project to that solver and rejects every request.\<close>

theorem assignSolver_unguarded:
  "assignSolver (ex_working TPending) ''b1'' ''p1'' ''s2'' =
     (Response 200 ''Project assigned successfully'',
      (ex_working TPending)\<lparr>projects := [ex_project (Some ''s2'') Assigned],
                   requests := [ex_request ''r1'' ''s1'' RRejected, ex_request ''r2'' ''s2'' RAccepted]\<rparr>) \<and>
   assignSolver ex_open ''b1'' ''p1'' ''s3'' =
     (Response 200 ''Project assigned successfully'',
      ex_open\<lparr>projects := [ex_project (Some ''s3'') Assigned],
              requests := [ex_request ''r1'' ''s1'' RRejected, ex_request ''r2'' ''s2'' RRejected]\<rparr>)"
  by (simp add: assignSolver_def ex_defs store_defs Let_def)

lemma user_findUnique_uid: "user_findUnique d a = Some u \<Longrightarrow> uid u = a"
  by (auto simp: user_findUnique_def dest: find_SomeD)

lemma protect_found: "user_findUnique d a = Some u \<Longrightarrow> protect d a = Inr u"
  by (simp add: protect_def)

text \<open>The owning buyer gets through whenever the solver id names a user: the handler
  checks nothing else.\<close>

lemma assignSolver_result:
  assumes u: "user_findUnique d actor = Some u" "urole u = Buyer"
    and s: "solverId \<noteq> []" "user_findUnique d solverId \<noteq> None"
    and p: "project_findUnique d projectId = Some project" "buyerId project = actor"
  shows "assignSolver d actor projectId solverId =
     (Response 200 ''Project assigned successfully'',
      d\<lparr>projects := map (\<lambda>q. if pid q = projectId
                                 then q\<lparr>assignedSolverId := Some solverId, pstatus := Assigned\<rparr>
                                 else q) (projects d),
        requests := map (\<lambda>q. if rprojectId q = projectId
                                 then q\<lparr>rstatus := (if rsolverId q = solverId then RAccepted else RRejected)\<rparr>
                                 else q) (requests d)\<rparr>)"
proof -
  from u(1) have pr: "protect d actor = Inr u" by (rule protect_found)
  from u(1) have ua: "uid u = actor" by (rule user_findUnique_uid)
  from p(1) have pp: "pid project = projectId" by (simp add: project_findUnique_pid)
  have upd: "project_update d projectId (\<lambda>p. p\<lparr>assignedSolverId := Some solverId, pstatus := Assigned\<rparr>) =
      Inr (d\<lparr>projects := map (\<lambda>q. if pid q = projectId
                                 then q\<lparr>assignedSolverId := Some solverId, pstatus := Assigned\<rparr>
                                 else q) (projects d)\<rparr>)"
    using p u(1) s(2) by (auto simp: project_update_def project_fk_ok_def)
  have maps: "map ((\<lambda>r. if rprojectId r = projectId \<and> rsolverId r \<noteq> solverId
                         then r\<lparr>rstatus := RRejected\<rparr> else r) \<circ>
                   (\<lambda>r. if rprojectId r = projectId \<and> rsolverId r = solverId
                         then r\<lparr>rstatus := RAccepted\<rparr> else r)) (requests d) =
              map (\<lambda>q. if rprojectId q = projectId
                         then q\<lparr>rstatus := (if rsolverId q = solverId then RAccepted else RRejected)\<rparr>
                         else q) (requests d)"
    by (rule map_cong) auto
  show ?thesis
    using u(2) s(1) p ua pp
    by (simp add: assignSolver_def pr authorize_def upd request_updateMany_def Let_def maps)
qed

text \<open>C3. For the buyer who owns the project, a solver id that names a user, and a
  request of that solver for the project, with the store's unique index on (project,
  solver) in place: the handler succeeds; the project is assigned to that solver and no
  other project changes; every request for the project is accepted if it is the chosen
  solver's and rejected otherwise, and the requests for other projects are as they were;
  of the project's \<open>N\<close> requests exactly one is accepted and \<open>N - 1\<close> are rejected.\<close>

theorem assignSolver_accepts_one_rejects_rest:
  assumes u: "user_findUnique d actor = Some u" "urole u = Buyer"
    and s: "solverId \<noteq> []" "user_findUnique d solverId \<noteq> None"
    and p: "project_findUnique d projectId = Some project" "buyerId project = actor"
    and uniq: "distinct (map (\<lambda>q. (rprojectId q, rsolverId q)) (requests d))"
    and q0: "q0 \<in> set (requests d)" "rprojectId q0 = projectId" "rsolverId q0 = solverId"
  shows "\<exists>d'. assignSolver d actor projectId solverId =
                (Response 200 ''Project assigned successfully'', d') \<and>
         projects d' = map (\<lambda>q. if pid q = projectId
                                 then q\<lparr>assignedSolverId := Some solverId, pstatus := Assigned\<rparr>
                                 else q) (projects d) \<and>
         project_findUnique d' projectId =
           Some (project\<lparr>assignedSolverId := Some solverId, pstatus := Assigned\<rparr>) \<and>
         requests d' = map (\<lambda>q. if rprojectId q = projectId
                                 then q\<lparr>rstatus := (if rsolverId q = solverId then RAccepted else RRejected)\<rparr>
                                 else q) (requests d) \<and>
         length (filter (\<lambda>q. rprojectId q = projectId \<and> rstatus q = RAccepted) (requests d')) = 1 \<and>
         length (filter (\<lambda>q. rprojectId q = projectId \<and> rstatus q = RRejected) (requests d')) =
           length (filter (\<lambda>q. rprojectId q = projectId) (requests d)) - 1 \<and>
         length (filter (\<lambda>q. rprojectId q = projectId) (requests d')) =
           length (filter (\<lambda>q. rprojectId q = projectId) (requests d))"
proof -
  let ?g = "\<lambda>q. if rprojectId q = projectId
                 then q\<lparr>rstatus := (if rsolverId q = solverId then RAccepted else RRejected)\<rparr>
                 else q"
  let ?f = "\<lambda>p. p\<lparr>assignedSolverId := Some solverId, pstatus := Assigned\<rparr>"
  define d' where "d' = d\<lparr>projects := map (\<lambda>q. if pid q = projectId then ?f q else q) (projects d),
                 requests := map ?g (requests d)\<rparr>"
  have run: "assignSolver d actor projectId solverId =
                (Response 200 ''Project assigned successfully'', d')"
    unfolding d'_def by (rule assignSolver_result [OF u s p])
  have ps: "projects d' = map (\<lambda>q. if pid q = projectId then ?f q else q) (projects d)"
    and rs: "requests d' = map ?g (requests d)"
    by (simp_all add: d'_def)
  have "project_findUnique d' projectId = map_option ?f (project_findUnique d projectId)"
    unfolding project_findUnique_def ps by (simp add: find_map_update)
  with p(1) have c1: "project_findUnique d' projectId = Some (?f project)"
    by simp
  have acc: "(\<lambda>q. rprojectId q = projectId \<and> rstatus q = RAccepted) \<circ> ?g =
             (\<lambda>q. (rprojectId q, rsolverId q) = (rprojectId q0, rsolverId q0))"
    using q0(2,3) by (auto simp: fun_eq_iff)
  have one: "length (filter (\<lambda>q. (rprojectId q, rsolverId q) = (rprojectId q0, rsolverId q0)) (requests d)) = 1"
    by (rule unique_key_count [OF uniq q0(1)])
  have c3: "length (filter (\<lambda>q. rprojectId q = projectId \<and> rstatus q = RAccepted) (requests d')) = 1"
    unfolding rs using one by (simp add: acc)
  have rej: "(\<lambda>q. rprojectId q = projectId \<and> rstatus q = RRejected) \<circ> ?g =
             (\<lambda>q. rprojectId q = projectId \<and> \<not> rsolverId q = solverId)"
    by (auto simp: fun_eq_iff)
  have same: "(\<lambda>q. rprojectId q = projectId) \<circ> ?g = (\<lambda>q. rprojectId q = projectId)"
    by (auto simp: fun_eq_iff)
  have one': "length (filter (\<lambda>q. rprojectId q = projectId \<and> rsolverId q = solverId) (requests d)) = 1"
    using one q0(2,3) by simp
  have c4: "length (filter (\<lambda>q. rprojectId q = projectId \<and> rstatus q = RRejected) (requests d')) =
           length (filter (\<lambda>q. rprojectId q = projectId) (requests d)) - 1"
    unfolding rs
    using one' filter_split_length [of "\<lambda>q. rprojectId q = projectId" "requests d" "\<lambda>q. rsolverId q = solverId"]
    by (simp add: rej)
  have c5: "length (filter (\<lambda>q. rprojectId q = projectId) (requests d')) =
           length (filter (\<lambda>q. rprojectId q = projectId) (requests d))"
    unfolding rs by (simp add: same)
  from run ps c1 rs c3 c4 c5 show ?thesis by blast
qed

theorem assignSolver_accepts_one_rejects_rest_witness:
  "user_findUnique ex_open ''b1'' = Some (mk_user ''b1'' Buyer) \<and>
   user_findUnique ex_open ''s1'' = Some (mk_user ''s1'' ProblemSolver) \<and>
   project_findUnique ex_open ''p1'' = Some (ex_project None Open) \<and>
   distinct (map (\<lambda>q. (rprojectId q, rsolverId q)) (requests ex_open)) \<and>
   ex_request ''r1'' ''s1'' RPending \<in> set (requests ex_open) \<and>
   length (filter (\<lambda>q. rprojectId q = ''p1'') (requests ex_open)) = 2 \<and>
   assignSolver ex_open ''b1'' ''p1'' ''s1'' =
     (Response 200 ''Project assigned successfully'',
      ex_open\<lparr>projects := [ex_project (Some ''s1'') Assigned],
              requests := [ex_request ''r1'' ''s1'' RAccepted, ex_request ''r2'' ''s2'' RRejected]\<rparr>) \<and>
   length (filter (\<lambda>q. rprojectId q = ''p1'' \<and> rstatus q = RAccepted)
             (requests (snd (assignSolver ex_open ''b1'' ''p1'' ''s1'')))) = 1 \<and>
   length (filter (\<lambda>q. rprojectId q = ''p1'' \<and> rstatus q = RRejected)
             (requests (snd (assignSolver ex_open ''b1'' ''p1'' ''s1'')))) = 1"
proof -
  have u: "user_findUnique ex_open ''b1'' = Some (mk_user ''b1'' Buyer)"
    "urole (mk_user ''b1'' Buyer) = Buyer"
    by (simp_all add: ex_defs store_defs)
  have s: "''s1'' \<noteq> []" "user_findUnique ex_open ''s1'' \<noteq> None"
    by (simp_all add: ex_defs store_defs)
  have s': "user_findUnique ex_open ''s1'' = Some (mk_user ''s1'' ProblemSolver)"
    by (simp add: ex_defs store_defs)
  have p: "project_findUnique ex_open ''p1'' = Some (ex_project None Open)"
    "buyerId (ex_project None Open) = ''b1''"
    by (simp_all add: ex_defs store_defs)
  have uniq: "distinct (map (\<lambda>q. (rprojectId q, rsolverId q)) (requests ex_open))"
    by (simp add: ex_defs)
  have q0: "ex_request ''r1'' ''s1'' RPending \<in> set (requests ex_open)"
    "rprojectId (ex_request ''r1'' ''s1'' RPending) = ''p1''"
    "rsolverId (ex_request ''r1'' ''s1'' RPending) = ''s1''"
    by (simp_all add: ex_defs)
  have n: "length (filter (\<lambda>q. rprojectId q = ''p1'') (requests ex_open)) = 2"
    by (simp add: ex_defs)
  have run: "assignSolver ex_open ''b1'' ''p1'' ''s1'' =
     (Response 200 ''Project assigned successfully'',
      ex_open\<lparr>projects := [ex_project (Some ''s1'') Assigned],
              requests := [ex_request ''r1'' ''s1'' RAccepted, ex_request ''r2'' ''s2'' RRejected]\<rparr>)"
    by (simp add: assignSolver_def ex_defs store_defs Let_def)
  from assignSolver_accepts_one_rejects_rest [OF u s p uniq q0] u(1) s' p(1) uniq q0(1) n run
  show ?thesis by (simp add: ex_defs)
qed

subsection \<open>What the store operations and the handlers leave alone\<close>

lemma user_update_InrD:
  "user_update d i f = Inr d' \<Longrightarrow> d' = d\<lparr>users := map (\<lambda>u. if uid u = i then f u else u) (users d)\<rparr>"
  by (auto simp: user_update_def split: if_splits)

lemma project_create_InrD:
  "project_create d p = Inr d' \<Longrightarrow>
     d' = d\<lparr>projects := projects d @ [p]\<rparr> \<and> project_findUnique d (pid p) = None"
  by (auto simp: project_create_def split: if_splits)

lemma project_update_InrD:
  "project_update d i f = Inr d' \<Longrightarrow>
     d' = d\<lparr>projects := map (\<lambda>q. if pid q = i then f q else q) (projects d)\<rparr>"
  by (auto simp: project_update_def split: option.splits if_splits)

lemma request_create_InrD:
  "request_create d r = Inr d' \<Longrightarrow> d' = d\<lparr>requests := requests d @ [r]\<rparr>"
  by (auto simp: request_create_def split: if_splits)

lemma task_create_InrD:
  "task_create d t = Inr d' \<Longrightarrow> d' = d\<lparr>tasks := tasks d @ [t]\<rparr>"
  by (auto simp: task_create_def split: if_splits)

lemma task_update_InrD:
  "task_update d i f = Inr d' \<Longrightarrow>
     d' = d\<lparr>tasks := map (\<lambda>t. if tid t = i then f t else t) (tasks d)\<rparr>"
  by (auto simp: task_update_def split: if_splits)

lemma submission_create_InrD:
  "submission_create d s = Inr d' \<Longrightarrow> d' = d\<lparr>submissions := submissions d @ [s]\<rparr>"
  by (auto simp: submission_create_def split: if_splits)

lemma submission_updateByTask_InrD:
  "submission_updateByTask d t f = Inr d' \<Longrightarrow>
     d' = d\<lparr>submissions := map (\<lambda>s. if staskId s = t then f s else s) (submissions d)\<rparr>"
  by (auto simp: submission_updateByTask_def split: if_splits)

lemma submission_update_InrD:
  "submission_update d i f = Inr d' \<Longrightarrow>
     d' = d\<lparr>submissions := map (\<lambda>s. if sid s = i then f s else s) (submissions d)\<rparr>"
  by (auto simp: submission_update_def split: if_splits)

lemma unlink_if_exists_frame [simp]:
  "users (unlink_if_exists d p) = users d"
  "projects (unlink_if_exists d p) = projects d"
  "requests (unlink_if_exists d p) = requests d"
  "tasks (unlink_if_exists d p) = tasks d"
  "submissions (unlink_if_exists d p) = submissions d"
  by (simp_all add: unlink_if_exists_def fs_unlink_def)

lemma catch_cleanup_frame [simp]:
  "users (catch_cleanup d p) = users d"
  "projects (catch_cleanup d p) = projects d"
  "requests (catch_cleanup d p) = requests d"
  "tasks (catch_cleanup d p) = tasks d"
  "submissions (catch_cleanup d p) = submissions d"
  by (simp_all add: catch_cleanup_def)

lemma fs_frame [simp]:
  "users (fs_unlink d p) = users d" "users (fs_write d p) = users d"
  "projects (fs_unlink d p) = projects d" "projects (fs_write d p) = projects d"
  "requests (fs_unlink d p) = requests d" "requests (fs_write d p) = requests d"
  "tasks (fs_unlink d p) = tasks d" "tasks (fs_write d p) = tasks d"
  "submissions (fs_unlink d p) = submissions d" "submissions (fs_write d p) = submissions d"
  by (simp_all add: fs_unlink_def fs_write_def)

lemma createProject_users: "users (snd (createProject d a i t ds dl)) = users d"
  by (auto simp: createProject_def split: sum.splits option.splits dest!: project_create_InrD)

lemma assignSolver_users: "users (snd (assignSolver d a p s)) = users d"
  by (auto simp: assignSolver_def request_updateMany_def Let_def split: sum.splits option.splits
      dest!: project_update_InrD)

lemma createRequest_insert_users: "users (snd (createRequest_insert d u i p m)) = users d"
  unfolding createRequest_insert_def
  by (cases "request_create d \<lparr>rid = i, rprojectId = p, rsolverId = uid u, rmessage = m, rstatus = RPending\<rparr>")
     (auto dest!: request_create_InrD)

lemma createRequest_users: "users (snd (createRequest d a i p m)) = users d"
  by (simp add: createRequest_def createRequest_insert_users split: sum.splits)

lemma createTask_users: "users (snd (createTask d a i p t ds dl)) = users d"
  by (auto simp: createTask_def split: sum.splits option.splits dest!: task_create_InrD project_update_InrD)

lemma updateTask_users: "users (snd (updateTask d a i t ds dl st)) = users d"
  by (auto simp: updateTask_def split: sum.splits option.splits dest!: task_update_InrD)

lemma replaceSubmission_users: "users (snd (replaceSubmission d e t p n z m)) = users d"
  by (auto simp: replaceSubmission_def Let_def split: sum.splits
      dest!: submission_updateByTask_InrD task_update_InrD)

lemma newSubmission_users: "users (snd (newSubmission d u t i ti p n z m)) = users d"
  by (auto simp: newSubmission_def split: sum.splits dest!: submission_create_InrD task_update_InrD)

lemma submitFile_users: "users (snd (submitFile d u i t p n z m)) = users d"
  by (simp add: submitFile_def replaceSubmission_users newSubmission_users split: option.splits)

lemma createSubmission_users: "users (snd (createSubmission d a i f t m)) = users d"
  by (simp add: createSubmission_def submitFile_users split: sum.splits upload.splits)

lemma review_accepted_users: "users (snd (review_accepted d s st)) = users d"
  by (auto simp: review_accepted_def Let_def split: sum.splits dest!: task_update_InrD project_update_InrD)

lemma review_rejected_users: "users (snd (review_rejected d s st)) = users d"
  by (auto simp: review_rejected_def split: sum.splits dest!: task_update_InrD)

lemma reviewSubmission_users: "users (snd (reviewSubmission d a i st now)) = users d"
  by (auto simp: reviewSubmission_def review_accepted_users review_rejected_users
      split: sum.splits option.splits dest!: submission_update_InrD)

subsection \<open>Open if and only if unassigned\<close>

lemma find_distinct_key:
  "distinct (map k xs) \<Longrightarrow> x \<in> set xs \<Longrightarrow> find (\<lambda>y. k y = k x) xs = Some x"
proof (induction xs)
  case Nil
  then show ?case by simp
next
  case (Cons a xs)
  show ?case
  proof (cases "x = a")
    case True
    then show ?thesis by simp
  next
    case False
    with Cons.prems have "x \<in> set xs" by simp
    with Cons.prems have "k a \<noteq> k x" by (metis distinct.simps(2) imageI list.simps(9) set_map)
    with Cons \<open>x \<in> set xs\<close> show ?thesis by simp
  qed
qed

lemma workflow_inv_alt:
  "workflow_inv d =
     (distinct (map pid (projects d)) \<and>
      (\<forall>p\<in>set (projects d). (pstatus p = Open) = (assignedSolverId p = None)) \<and>
      (\<forall>s\<in>set (submissions d). \<exists>p\<in>set (projects d). pid p = sprojectId s \<and> assignedSolverId p \<noteq> None))"
proof -
  have key: "(case project_findUnique d i of None \<Rightarrow> False | Some p \<Rightarrow> assignedSolverId p \<noteq> None) =
        (\<exists>p\<in>set (projects d). pid p = i \<and> assignedSolverId p \<noteq> None)"
    if dist: "distinct (map pid (projects d))" for i
  proof (cases "project_findUnique d i")
    case None
    then show ?thesis
      by (auto simp: project_findUnique_def dest: find_NoneD)
  next
    case (Some p)
    then have p: "pid p = i" "p \<in> set (projects d)"
      using project_findUnique_pid by blast+
    have uniq: "q = p" if "q \<in> set (projects d)" "pid q = i" for q
      using find_distinct_key [OF dist that(1)] that(2) Some
      by (simp add: project_findUnique_def)
    from Some have L: "(case project_findUnique d i of None \<Rightarrow> False
                        | Some p \<Rightarrow> assignedSolverId p \<noteq> None) = (assignedSolverId p \<noteq> None)"
      by simp
    have R: "(\<exists>q\<in>set (projects d). pid q = i \<and> assignedSolverId q \<noteq> None) =
             (assignedSolverId p \<noteq> None)"
      using uniq p by blast
    show ?thesis unfolding L R by (rule refl)
  qed
  show ?thesis
  proof (cases "distinct (map pid (projects d))")
    case True
    show ?thesis
      unfolding workflow_inv_def list_all_iff using True by (simp add: key [OF True])
  next
    case False
    then show ?thesis by (simp add: workflow_inv_def)
  qed
qed

lemma inv_frame:
  assumes "workflow_inv d" and "projects d' = projects d"
    and "sprojectId ` set (submissions d') \<subseteq> sprojectId ` set (submissions d)"
  shows "workflow_inv d'"
  using assms unfolding workflow_inv_alt
  by (auto simp: image_subset_iff)

lemma inv_new_project:
  assumes "workflow_inv d" and "projects d' = projects d @ [p]"
    and "project_findUnique d (pid p) = None"
    and "pstatus p = Open" "assignedSolverId p = None"
    and "submissions d' = submissions d"
  shows "workflow_inv d'"
proof -
  from assms(3) have "pid p \<notin> pid ` set (projects d)"
    by (auto simp: project_findUnique_def dest: find_NoneD)
  with assms show ?thesis
    unfolding workflow_inv_alt by auto
qed

lemma inv_update_project:
  assumes "workflow_inv d"
    and "projects d' = map (\<lambda>q. if pid q = i then f q else q) (projects d)"
    and "\<And>q. pid (f q) = pid q"
    and "\<And>q. q \<in> set (projects d) \<Longrightarrow> pid q = i \<Longrightarrow>
           (pstatus (f q) = Open) = (assignedSolverId (f q) = None)"
    and "\<And>q. assignedSolverId q \<noteq> None \<Longrightarrow> assignedSolverId (f q) \<noteq> None"
    and "sprojectId ` set (submissions d') \<subseteq> sprojectId ` set (submissions d)"
  shows "workflow_inv d'"
proof -
  have m: "map pid (map (\<lambda>q. if pid q = i then f q else q) (projects d)) = map pid (projects d)"
    using assms(3) by (induction "projects d") auto
  have a: "distinct (map pid (projects d'))"
    using assms(1) unfolding assms(2) m workflow_inv_alt by simp
  have b: "\<forall>p\<in>set (projects d'). (pstatus p = Open) = (assignedSolverId p = None)"
  proof
    fix p assume "p \<in> set (projects d')"
    then obtain q where q: "q \<in> set (projects d)" "p = (if pid q = i then f q else q)"
      unfolding assms(2) by auto
    show "(pstatus p = Open) = (assignedSolverId p = None)"
    proof (cases "pid q = i")
      case True
      with q assms(4) show ?thesis by simp
    next
      case False
      with q assms(1) show ?thesis unfolding workflow_inv_alt by simp
    qed
  qed
  have c: "\<exists>p\<in>set (projects d'). pid p = sprojectId s \<and> assignedSolverId p \<noteq> None"
    if "s \<in> set (submissions d')" for s
  proof -
    from that have "sprojectId s \<in> sprojectId ` set (submissions d')" by simp
    with assms(6) have "sprojectId s \<in> sprojectId ` set (submissions d)" by blast
    then obtain s0 where s0: "s0 \<in> set (submissions d)" "sprojectId s0 = sprojectId s"
      by (auto simp: image_iff)
    from assms(1) have "\<forall>s\<in>set (submissions d). \<exists>p\<in>set (projects d).
          pid p = sprojectId s \<and> assignedSolverId p \<noteq> None"
      unfolding workflow_inv_alt by simp
    with s0 obtain p where p: "p \<in> set (projects d)" "pid p = sprojectId s" "assignedSolverId p \<noteq> None"
      by force
    let ?p = "if pid p = i then f p else p"
    have "?p \<in> set (projects d')" using p(1) unfolding assms(2) by auto
    moreover have "pid ?p = sprojectId s" using p(2) assms(3) by simp
    moreover have "assignedSolverId ?p \<noteq> None" using p(3) assms(5) by simp
    ultimately show ?thesis by blast
  qed
  from a b c show ?thesis unfolding workflow_inv_alt by blast
qed

lemma inv_new_submission:
  assumes "workflow_inv d" and "projects d' = projects d"
    and "submissions d' = submissions d @ [s]"
    and "project_findUnique d (sprojectId s) = Some p" "assignedSolverId p \<noteq> None"
  shows "workflow_inv d'"
proof -
  from assms(4) have "pid p = sprojectId s" "p \<in> set (projects d)"
    using project_findUnique_pid by blast+
  with assms show ?thesis unfolding workflow_inv_alt by auto
qed

lemma inv_cong:
  "projects d' = projects d \<Longrightarrow> submissions d' = submissions d \<Longrightarrow> workflow_inv d' = workflow_inv d"
  unfolding workflow_inv_alt by simp

lemma inv_fs [simp]:
  "workflow_inv (fs_write d p) = workflow_inv d"
  "workflow_inv (fs_unlink d p) = workflow_inv d"
  "workflow_inv (unlink_if_exists d p) = workflow_inv d"
  "workflow_inv (catch_cleanup d p) = workflow_inv d"
  using inv_cong [of "fs_write d p" d] inv_cong [of "fs_unlink d p" d]
    inv_cong [of "unlink_if_exists d p" d] inv_cong [of "catch_cleanup d p" d]
  by simp_all

lemma inv_project_unique:
  assumes "workflow_inv d" "q \<in> set (projects d)" "q' \<in> set (projects d)" "pid q = pid q'"
  shows "q = q'"
proof -
  from assms(1) have "distinct (map pid (projects d))" unfolding workflow_inv_alt by simp
  then have "inj_on pid (set (projects d))" by (simp add: distinct_map)
  with assms(2-4) show ?thesis by (auto simp: inj_on_def)
qed

lemma inv_submission_project:
  assumes "workflow_inv d" "i \<in> sprojectId ` set (submissions d)" "q \<in> set (projects d)" "pid q = i"
  shows "assignedSolverId q \<noteq> None"
proof -
  from assms(2) obtain s where s: "s \<in> set (submissions d)" "sprojectId s = i" by auto
  from assms(1) s(1) obtain p where p: "p \<in> set (projects d)" "pid p = sprojectId s" "assignedSolverId p \<noteq> None"
    unfolding workflow_inv_alt by blast
  from inv_project_unique [OF assms(1) assms(3) p(1)] assms(4) p(2) s(2) have "q = p" by simp
  with p(3) show ?thesis by simp
qed

lemma project_create_inv:
  "workflow_inv d \<Longrightarrow> project_create d p = Inr d' \<Longrightarrow> pstatus p = Open \<Longrightarrow>
     assignedSolverId p = None \<Longrightarrow> workflow_inv d'"
  using inv_new_project [of d d' p] by (auto dest!: project_create_InrD)

lemma task_create_inv:
  assumes "workflow_inv d" "task_create d t = Inr d'"
  shows "workflow_inv d'"
  using assms(1) task_create_InrD [OF assms(2)] inv_cong [of d' d] by simp

lemma task_update_inv:
  assumes "workflow_inv d" "task_update d i f = Inr d'"
  shows "workflow_inv d'"
  using assms(1) task_update_InrD [OF assms(2)] inv_cong [of d' d] by simp

lemma request_create_inv:
  assumes "workflow_inv d" "request_create d r = Inr d'"
  shows "workflow_inv d'"
  using assms(1) request_create_InrD [OF assms(2)] inv_cong [of d' d] by simp

lemma request_updateMany_inv [simp]: "workflow_inv (request_updateMany d P f) = workflow_inv d"
  using inv_cong [of "request_updateMany d P f" d] by (simp add: request_updateMany_def)

lemma user_update_inv:
  assumes "workflow_inv d" "user_update d i f = Inr d'"
  shows "workflow_inv d'"
  using assms(1) user_update_InrD [OF assms(2)] inv_cong [of d' d] by simp

lemma submission_update_inv:
  assumes "workflow_inv d" "submission_update d i f = Inr d'" "\<And>s. sprojectId (f s) = sprojectId s"
  shows "workflow_inv d'"
proof (rule inv_frame [OF assms(1)])
  from submission_update_InrD [OF assms(2)]
  show "projects d' = projects d"
    and "sprojectId ` set (submissions d') \<subseteq> sprojectId ` set (submissions d)"
    using assms(3) by auto
qed

lemma submission_updateByTask_inv:
  assumes "workflow_inv d" "submission_updateByTask d t f = Inr d'" "\<And>s. sprojectId (f s) = sprojectId s"
  shows "workflow_inv d'"
proof (rule inv_frame [OF assms(1)])
  from submission_updateByTask_InrD [OF assms(2)]
  show "projects d' = projects d"
    and "sprojectId ` set (submissions d') \<subseteq> sprojectId ` set (submissions d)"
    using assms(3) by auto
qed

lemma submission_create_inv:
  assumes "workflow_inv d" "submission_create d s = Inr d'"
    "project_findUnique d (sprojectId s) = Some p" "assignedSolverId p \<noteq> None"
  shows "workflow_inv d'"
  using submission_create_InrD [OF assms(2)]
  by (intro inv_new_submission [OF assms(1) _ _ assms(3,4)]) simp_all

lemma project_update_inv:
  assumes "workflow_inv d" "project_update d i f = Inr d'"
    and "\<And>q. pid (f q) = pid q"
    and "\<And>q. q \<in> set (projects d) \<Longrightarrow> pid q = i \<Longrightarrow>
           (pstatus (f q) = Open) = (assignedSolverId (f q) = None)"
    and "\<And>q. assignedSolverId q \<noteq> None \<Longrightarrow> assignedSolverId (f q) \<noteq> None"
  shows "workflow_inv d'"
  using project_update_InrD [OF assms(2)]
  by (intro inv_update_project [OF assms(1) _ assms(3,4,5)]) simp_all

lemma createProject_inv: "workflow_inv d \<Longrightarrow> workflow_inv (snd (createProject d a i t ds dl))"
  by (auto simp: createProject_def split: sum.splits option.splits
      intro: project_create_inv [where d = d])

lemma assignSolver_inv:
  assumes "workflow_inv d"
  shows "workflow_inv (snd (assignSolver d a p s))"
proof -
  have "workflow_inv d1"
    if "project_update d p (\<lambda>q. q\<lparr>assignedSolverId := Some s, pstatus := Assigned\<rparr>) = Inr d1" for d1
    by (rule project_update_inv [OF assms that]) simp_all
  with assms show ?thesis
    by (auto simp: assignSolver_def Let_def split: sum.splits option.splits)
qed

lemma createRequest_insert_inv:
  "workflow_inv d \<Longrightarrow> workflow_inv (snd (createRequest_insert d u i p m))"
  unfolding createRequest_insert_def
  by (cases "request_create d \<lparr>rid = i, rprojectId = p, rsolverId = uid u, rmessage = m, rstatus = RPending\<rparr>")
     (auto intro: request_create_inv)

lemma createRequest_inv: "workflow_inv d \<Longrightarrow> workflow_inv (snd (createRequest d a i p m))"
  by (simp add: createRequest_def createRequest_insert_inv split: sum.splits)

lemma createTask_inv:
  assumes "workflow_inv d"
  shows "workflow_inv (snd (createTask d a i p t ds dl))"
proof -
  have "workflow_inv d2"
    if "project_findUnique d p = Some project" "assignedSolverId project \<noteq> None"
      "task_create d tk = Inr d1"
      "project_update d1 p (\<lambda>q. q\<lparr>pstatus := InProgress\<rparr>) = Inr d2" for project tk d1 d2
  proof -
    have inv1: "workflow_inv d1" by (rule task_create_inv [OF assms that(3)])
    have ps: "projects d1 = projects d" using task_create_InrD [OF that(3)] by simp
    have found: "project \<in> set (projects d)" "pid project = p"
      using project_findUnique_pid [OF that(1)] by simp_all
    show ?thesis
    proof (rule project_update_inv [OF inv1 that(4)])
      fix q assume q: "q \<in> set (projects d1)" "pid q = p"
      with ps found inv_project_unique [OF assms, of q project] have "q = project" by simp
      with that(2) show "(pstatus (q\<lparr>pstatus := InProgress\<rparr>) = Open) =
                          (assignedSolverId (q\<lparr>pstatus := InProgress\<rparr>) = None)" by simp
    qed simp_all
  qed
  with assms show ?thesis
    by (auto simp: createTask_def split: sum.splits option.splits intro: task_create_inv)
qed

lemma updateTask_inv: "workflow_inv d \<Longrightarrow> workflow_inv (snd (updateTask d a i t ds dl st))"
  by (auto simp: updateTask_def split: sum.splits option.splits intro: task_update_inv)

lemma replaceSubmission_inv:
  assumes inv: "workflow_inv d"
  shows "workflow_inv (snd (replaceSubmission d e t p n z m))"
proof -
  let ?f = "\<lambda>s. s\<lparr>filePath := p, fileName := n, fileSize := z,
                   smessage := (case m of None \<Rightarrow> smessage e
                                | Some m \<Rightarrow> if m = [] then smessage e else Some m),
                   sstatus := SPending\<rparr>"
  have a: "workflow_inv d2"
    if "submission_updateByTask (unlink_if_exists d (filePath e)) t ?f = Inr d2" for d2
    by (rule submission_updateByTask_inv [OF _ that]) (simp_all add: inv)
  have b: "workflow_inv d3"
    if "submission_updateByTask (unlink_if_exists d (filePath e)) t ?f = Inr d2"
       "task_update d2 t g = Inr d3" for d2 d3 g
    by (rule task_update_inv [OF a [OF that(1)] that(2)])
  from a b show ?thesis
    by (auto simp: replaceSubmission_def Let_def inv split: sum.splits)
qed

lemma newSubmission_inv:
  assumes "workflow_inv d" "project_findUnique d (tprojectId t) = Some project"
    "assignedSolverId project \<noteq> None"
  shows "workflow_inv (snd (newSubmission d u t i ti p n z m))"
proof -
  let ?s = "\<lparr>sid = i, staskId = ti, sprojectId = tprojectId t, ssolverId = uid u,
              filePath = p, fileName = n, fileSize = z, smessage = m,
              sstatus = SPending, reviewedAt = None\<rparr>"
  have a: "workflow_inv d1" if "submission_create d ?s = Inr d1" for d1
    using submission_create_inv [OF assms(1) that, of project] assms(2,3) by simp
  have b: "workflow_inv d2"
    if "submission_create d ?s = Inr d1" "task_update d1 ti g = Inr d2" for d1 d2 g
    by (rule task_update_inv [OF a [OF that(1)] that(2)])
  from a b assms(1) show ?thesis
    by (auto simp: newSubmission_def split: sum.splits)
qed

lemma submitFile_inv:
  "workflow_inv d \<Longrightarrow> workflow_inv (snd (submitFile d u i t p n z m))"
  by (auto simp: submitFile_def replaceSubmission_inv split: option.splits intro: newSubmission_inv)

lemma createSubmission_inv:
  "workflow_inv d \<Longrightarrow> workflow_inv (snd (createSubmission d a i f t m))"
  by (simp add: createSubmission_def submitFile_inv split: sum.splits upload.splits)

lemma review_rejected_inv: "workflow_inv d \<Longrightarrow> workflow_inv (snd (review_rejected d s st))"
  by (auto simp: review_rejected_def split: sum.splits intro: task_update_inv)

lemma review_accepted_inv:
  assumes "workflow_inv d" "sprojectId s \<in> sprojectId ` set (submissions d)"
  shows "workflow_inv (snd (review_accepted d s st))"
proof -
  have a: "workflow_inv d2" if "task_update d (staskId s) f = Inr d2" for f d2
    by (rule task_update_inv [OF assms(1) that])
  have b: "workflow_inv d3"
    if "task_update d (staskId s) f = Inr d2"
       "project_update d2 (sprojectId s) (\<lambda>q. q\<lparr>pstatus := Completed\<rparr>) = Inr d3" for f d2 d3
  proof -
    have same: "projects d2 = projects d" "submissions d2 = submissions d"
      using task_update_InrD [OF that(1)] by simp_all
    show ?thesis
    proof (rule project_update_inv [OF a [OF that(1)] that(2)])
      fix q assume "q \<in> set (projects d2)" "pid q = sprojectId s"
      with same assms have "assignedSolverId q \<noteq> None"
        using inv_submission_project [of d "sprojectId s" q] by simp
      then show "(pstatus (q\<lparr>pstatus := Completed\<rparr>) = Open) =
                 (assignedSolverId (q\<lparr>pstatus := Completed\<rparr>) = None)" by simp
    qed simp_all
  qed
  from a b assms(1) show ?thesis
    by (auto simp: review_accepted_def Let_def split: sum.splits)
qed

lemma submission_update_keeps_project:
  assumes "submission_findUnique d i = Some sub"
    "submission_update d i (\<lambda>s. s\<lparr>sstatus := x, reviewedAt := y\<rparr>) = Inr d1"
  shows "sprojectId sub \<in> sprojectId ` set (submissions d1)"
proof -
  from assms(1) have "sub \<in> set (submissions d)"
    unfolding submission_findUnique_def by (auto dest: find_SomeD)
  moreover have "map sprojectId (submissions d1) = map sprojectId (submissions d)"
    using submission_update_InrD [OF assms(2)] by (simp add: o_def if_distrib cong: if_cong)
  then have "set (map sprojectId (submissions d1)) = set (map sprojectId (submissions d))"
    by simp
  ultimately show ?thesis by simp
qed

lemma reviewSubmission_inv:
  assumes "workflow_inv d"
  shows "workflow_inv (snd (reviewSubmission d a i st now))"
proof -
  have a: "workflow_inv d1"
    if "submission_update d i (\<lambda>s. s\<lparr>sstatus := x, reviewedAt := Some now\<rparr>) = Inr d1" for x d1
    by (rule submission_update_inv [OF assms that]) simp
  have b: "workflow_inv (snd (review_accepted d1 sub st))"
    if "submission_findUnique d i = Some sub"
       "submission_update d i (\<lambda>s. s\<lparr>sstatus := x, reviewedAt := Some now\<rparr>) = Inr d1" for sub x d1
    by (rule review_accepted_inv [OF a [OF that(2)] submission_update_keeps_project [OF that]])
  from a b assms show ?thesis
    by (auto simp: reviewSubmission_def review_rejected_inv split: sum.splits option.splits)
qed

lemma assignBuyer_inv: "workflow_inv d \<Longrightarrow> workflow_inv (snd (assignBuyer d a i))"
  by (auto simp: assignBuyer_def split: sum.splits intro: user_update_inv)

lemma updateProfile_inv: "workflow_inv d \<Longrightarrow> workflow_inv (snd (updateProfile d a b sk e p))"
  by (auto simp: updateProfile_def split: sum.splits intro: user_update_inv)

lemma step_inv: "workflow_inv d \<Longrightarrow> workflow_inv (step d x)"
  by (cases x)
     (simp_all add: createProject_inv assignSolver_inv createRequest_inv createTask_inv
        updateTask_inv createSubmission_inv reviewSubmission_inv assignBuyer_inv updateProfile_inv)

lemma run_inv: "workflow_inv d \<Longrightarrow> workflow_inv (run d xs)"
  unfolding run_def by (induction xs arbitrary: d) (simp_all add: step_inv)

text \<open>C2. From a store with no project and no submission yet, after any sequence of
  requests to the handlers (project creation, assignment, requests, tasks, task updates,
  submissions, reviews, role assignment, profile updates), every project has status open
  if and only if its assigned solver is unset.\<close>

theorem open_iff_unassigned:
  assumes "projects d0 = []" and "submissions d0 = []"
    and "p \<in> set (projects (run d0 ops))"
  shows "(pstatus p = Open) = (assignedSolverId p = None)"
proof -
  from assms(1,2) have "workflow_inv d0" by (simp add: workflow_inv_def)
  then have "workflow_inv (run d0 ops)" by (rule run_inv)
  with assms(3) show ?thesis unfolding workflow_inv_alt by blast
qed

theorem open_iff_unassigned_witness:
  "projects ex_empty = [] \<and> submissions ex_empty = [] \<and>
   ex_project (Some ''s1'') Assigned \<in>
     set (projects (run ex_empty [CreateProject ''b1'' ''p1'' ''Site'' ''Build it'' None,
                                  AssignSolver ''b1'' ''p1'' ''s1''])) \<and>
   ((pstatus (ex_project (Some ''s1'') Assigned) = Open) =
    (assignedSolverId (ex_project (Some ''s1'') Assigned) = None))"
proof -
  let ?ops = "[CreateProject ''b1'' ''p1'' ''Site'' ''Build it'' None, AssignSolver ''b1'' ''p1'' ''s1'']"
  have e: "projects ex_empty = []" "submissions ex_empty = []" by (simp_all add: ex_empty_def)
  have r: "projects (run ex_empty ?ops) = [ex_project (Some ''s1'') Assigned]"
    by (simp add: run_def createProject_def assignSolver_def optional_date_def trim_examples
        ex_empty_def ex_defs store_defs Let_def)
  then have m: "ex_project (Some ''s1'') Assigned \<in> set (projects (run ex_empty ?ops))" by simp
  from open_iff_unassigned [OF e m] e m show ?thesis by simp
qed

subsection \<open>Roles\<close>

lemma role_step_refl: "list_all2 role_step us us"
  by (simp add: list_all2_refl role_step_def)

lemma role_step_trans:
  assumes "list_all2 role_step xs ys" "list_all2 role_step ys zs"
  shows "list_all2 role_step xs zs"
  by (rule list_all2_trans [OF _ assms]) (auto simp: role_step_def)

lemma role_step_map:
  "(\<And>u. role_step u (f u)) \<Longrightarrow> list_all2 role_step us (map (\<lambda>u. if uid u = i then f u else u) us)"
  by (induction us) (auto simp: role_step_def)

lemma assignBuyer_roles: "list_all2 role_step (users d) (users (snd (assignBuyer d a i)))"
  by (auto simp: assignBuyer_def role_step_refl split: sum.splits
      dest!: user_update_InrD intro!: role_step_map) (simp add: role_step_def)

lemma updateProfile_roles: "list_all2 role_step (users d) (users (snd (updateProfile d a b sk e p)))"
  by (auto simp: updateProfile_def role_step_refl split: sum.splits
      dest!: user_update_InrD intro!: role_step_map) (simp add: role_step_def)

lemma step_roles: "list_all2 role_step (users d) (users (step d x))"
  by (cases x)
     (simp_all add: createProject_users assignSolver_users createRequest_users createTask_users
        updateTask_users createSubmission_users reviewSubmission_users assignBuyer_roles
        updateProfile_roles role_step_refl)

text \<open>C9. The specification has roles move from problem solver to buyer only, and never
  by an admin on its own account. The handler sets the role of whichever user is named,
  the acting admin included (the second theorem below: an admin turns itself into a
  buyer). What holds is that buyer is the only role any request ever writes: after any
  sequence of requests every user row is still there under its id, with the role it had
  or with the role buyer, so that a buyer stays a buyer and nobody becomes a problem
  solver or an admin.\<close>

theorem roles_only_move_to_buyer:
  "list_all2 role_step (users d) (users (run d ops))"
  unfolding run_def
proof (induction ops arbitrary: d)
  case Nil
  show ?case by (simp add: role_step_refl)
next
  case (Cons x xs)
  have "list_all2 role_step (users d) (users (step d x))" by (rule step_roles)
  moreover have "list_all2 role_step (users (step d x)) (users (foldl step (step d x) xs))"
    by (rule Cons.IH)
  ultimately show ?case by (simp add: role_step_trans)
qed

theorem admin_assigns_buyer_to_itself:
  "user_findUnique ex_open ''a1'' = Some (mk_user ''a1'' Admin) \<and>
   fst (assignBuyer ex_open ''a1'' ''a1'') = Response 200 ''Buyer role assigned successfully'' \<and>
   user_findUnique (snd (assignBuyer ex_open ''a1'' ''a1'')) ''a1'' = Some (mk_user ''a1'' Buyer)"
  by (simp add: assignBuyer_def ex_defs store_defs)

subsection \<open>Tasks\<close>

lemma protect_InrD: "protect d a = Inr u \<Longrightarrow> user_findUnique d a = Some u \<and> uid u = a"
  by (auto simp: protect_def user_findUnique_def split: option.splits dest: find_SomeD)

lemma task_written_ok_status [simp]: "task_written_ok t (t\<lparr>tstatus := x\<rparr>)"
  by (simp add: task_written_ok_def written_ok_def)

lemma submission_written_ok_status [simp]:
  "submission_written_ok s (s\<lparr>sstatus := x, reviewedAt := y\<rparr>)"
  by (simp add: submission_written_ok_def written_ok_def opt_written_ok_def)

lemma task_update_found:
  "task_findUnique d i \<noteq> None \<Longrightarrow> (\<And>t. task_written_ok t (f t)) \<Longrightarrow>
     task_update d i f = Inr (d\<lparr>tasks := map (\<lambda>t. if tid t = i then f t else t) (tasks d)\<rparr>)"
  by (simp add: task_update_def list_all_iff)

lemma task_find_after_update:
  "(\<And>t. tid (f t) = tid t) \<Longrightarrow>
     task_findUnique (d\<lparr>tasks := map (\<lambda>t. if tid t = i then f t else t) (tasks d)\<rparr>) i =
     map_option f (task_findUnique d i)"
  by (simp add: task_findUnique_def find_map_update)

lemma createTask_refused:
  assumes "project_findUnique d projectId = Some project"
    and "assignedSolverId project = None \<or> assignedSolverId project \<noteq> Some actor"
  shows "\<exists>r. createTask d actor newId projectId title description deadline = (r, d) \<and>
             400 \<le> status_code r"
proof (cases "protect d actor")
  case (Inl e)
  then show ?thesis by (auto simp: createTask_def protect_def split: option.splits)
next
  case (Inr u)
  then have "uid u = actor" by (simp add: protect_InrD)
  with assms Inr show ?thesis
    by (auto simp: createTask_def forbidden_role_def validation_failed_def)
qed

lemma createTask_result:
  assumes u: "user_findUnique d actor = Some u" "urole u = ProblemSolver"
    and p: "project_findUnique d projectId = Some project" "assignedSolverId project = Some actor"
    and v: "actor \<noteq> []" "projectId \<noteq> []" "trim title \<noteq> []" "trim description \<noteq> []"
      "fst deadline \<noteq> []" "snd deadline = Some dl"
    and tx: "text_ok newId" "text_ok title" "text_ok description"
    and fresh: "task_findUnique d newId = None"
  shows "createTask d actor newId projectId title description deadline =
     (Response 201 [],
      d\<lparr>tasks := tasks d @
           [\<lparr>tid = newId, tprojectId = projectId, tuserId = actor, ttitle = trim title,
             tdescription = trim description, tdeadline = dl, tstatus = TPending\<rparr>],
        projects := map (\<lambda>q. if pid q = projectId \<and> pstatus project = Assigned
                               then q\<lparr>pstatus := InProgress\<rparr> else q) (projects d)\<rparr>)"
proof -
  let ?t = "\<lparr>tid = newId, tprojectId = projectId, tuserId = actor, ttitle = trim title,
             tdescription = trim description, tdeadline = dl, tstatus = TPending\<rparr>"
  from u(1) have pr: "protect d actor = Inr u" by (rule protect_found)
  from u(1) have ua: "uid u = actor" by (rule user_findUnique_uid)
  have tc: "task_create d ?t = Inr (d\<lparr>tasks := tasks d @ [?t]\<rparr>)"
    using tx fresh p(1) u(1) by (simp add: task_create_def text_ok_trim)
  have pu: "project_update (d\<lparr>tasks := tasks d @ [?t]\<rparr>) projectId (\<lambda>p. p\<lparr>pstatus := InProgress\<rparr>) =
      Inr (d\<lparr>tasks := tasks d @ [?t],
             projects := map (\<lambda>q. if pid q = projectId then q\<lparr>pstatus := InProgress\<rparr> else q)
                           (projects d)\<rparr>)"
    using p(1) by (simp add: project_update_def project_findUnique_def)
  show ?thesis
  proof (cases "pstatus project = Assigned")
    case True
    with u(2) p v ua show ?thesis
      by (simp add: createTask_def pr authorize_def tc pu)
  next
    case False
    have "d\<lparr>tasks := tasks d @ [?t], projects := map (\<lambda>q. q) (projects d)\<rparr> =
          d\<lparr>tasks := tasks d @ [?t]\<rparr>" by simp
    with False u(2) p v ua show ?thesis
      by (simp add: createTask_def pr authorize_def tc)
  qed
qed

text \<open>C7. For a project that exists. Creating a task fails (a 4xx answer, the store
  unchanged) when the project's assigned solver is unset or is not the creator. It
  succeeds with 201 for the assigned solver, a problem solver, who sends a non-empty
  title and description (after trimming), a deadline that is a date, and text the store
  accepts, under a fresh task id: a task with status pending is appended for the project
  and the creator, the project's status is advanced to in progress if it was assigned
  and is otherwise kept, and nothing else changes. And whenever the answer is 201, the
  appended task is pending and the project's status is as just said.\<close>

theorem createTask_contract:
  assumes found: "project_findUnique d projectId = Some project"
    and run: "createTask d actor newId projectId title description deadline = (r, d')"
  shows "((assignedSolverId project = None \<or> assignedSolverId project \<noteq> Some actor) \<longrightarrow>
            400 \<le> status_code r \<and> d' = d) \<and>
         (user_findUnique d actor = Some u \<and> urole u = ProblemSolver \<and>
          assignedSolverId project = Some actor \<and> actor \<noteq> [] \<and> projectId \<noteq> [] \<and>
          trim title \<noteq> [] \<and> trim description \<noteq> [] \<and>
          fst deadline \<noteq> [] \<and> snd deadline = Some dl \<and>
          text_ok newId \<and> text_ok title \<and> text_ok description \<and>
          task_findUnique d newId = None \<longrightarrow>
            r = Response 201 [] \<and>
            d' = d\<lparr>tasks := tasks d @
                      [\<lparr>tid = newId, tprojectId = projectId, tuserId = actor, ttitle = trim title,
                        tdescription = trim description, tdeadline = dl, tstatus = TPending\<rparr>],
                   projects := map (\<lambda>q. if pid q = projectId \<and> pstatus project = Assigned
                                          then q\<lparr>pstatus := InProgress\<rparr> else q) (projects d)\<rparr>) \<and>
         (status_code r = 201 \<longrightarrow>
            (\<exists>t. tasks d' = tasks d @ [t] \<and> tid t = newId \<and> tprojectId t = projectId \<and>
                 tuserId t = actor \<and> tstatus t = TPending) \<and>
            (\<exists>p'. project_findUnique d' projectId = Some p' \<and>
                  pstatus p' = (if pstatus project = Assigned then InProgress else pstatus project)) \<and>
            (\<forall>q\<in>set (projects d'). pid q \<noteq> projectId \<longrightarrow> q \<in> set (projects d)))"
proof -
  have one: "400 \<le> status_code r \<and> d' = d"
    if "assignedSolverId project = None \<or> assignedSolverId project \<noteq> Some actor"
    using createTask_refused [OF found that, of newId title description deadline] run by auto
  have two: "r = Response 201 [] \<and>
            d' = d\<lparr>tasks := tasks d @
                      [\<lparr>tid = newId, tprojectId = projectId, tuserId = actor, ttitle = trim title,
                        tdescription = trim description, tdeadline = dl, tstatus = TPending\<rparr>],
                   projects := map (\<lambda>q. if pid q = projectId \<and> pstatus project = Assigned
                                          then q\<lparr>pstatus := InProgress\<rparr> else q) (projects d)\<rparr>"
    if "user_findUnique d actor = Some u" "urole u = ProblemSolver"
       "assignedSolverId project = Some actor" "actor \<noteq> []" "projectId \<noteq> []"
       "trim title \<noteq> []" "trim description \<noteq> []" "fst deadline \<noteq> []" "snd deadline = Some dl"
       "text_ok newId" "text_ok title" "text_ok description" "task_findUnique d newId = None"
    using createTask_result [OF that(1,2) found that(3-13)] run by simp
  have three: "(\<exists>t. tasks d' = tasks d @ [t] \<and> tid t = newId \<and> tprojectId t = projectId \<and>
                 tuserId t = actor \<and> tstatus t = TPending) \<and>
            (\<exists>p'. project_findUnique d' projectId = Some p' \<and>
                  pstatus p' = (if pstatus project = Assigned then InProgress else pstatus project)) \<and>
            (\<forall>q\<in>set (projects d'). pid q \<noteq> projectId \<longrightarrow> q \<in> set (projects d))"
    if ok: "status_code r = 201"
  proof (cases "protect d actor")
    case (Inl e)
    with run ok show ?thesis by (auto simp: createTask_def protect_def split: option.splits)
  next
    case (Inr w)
    then have w: "uid w = actor" by (simp add: protect_InrD)
    show ?thesis
      using run found w Inr ok
      by (auto simp: createTask_def forbidden_role_def validation_failed_def server_error_def
            project_findUnique_def find_map_update
          split: if_splits option.splits sum.splits
          dest!: task_create_InrD project_update_InrD)
  qed
  from one two three show ?thesis by blast
qed

theorem createTask_contract_witness:
  "project_findUnique ex_assigned ''p1'' = Some (ex_project (Some ''s1'') Assigned) \<and>
   user_findUnique ex_assigned ''s1'' = Some (mk_user ''s1'' ProblemSolver) \<and>
   trim ''Page'' = ''Page'' \<and> trim ''Landing page'' = ''Landing page'' \<and>
   text_ok ''t1'' \<and> text_ok ''Page'' \<and> text_ok ''Landing page'' \<and>
   task_findUnique ex_assigned ''t1'' = None \<and>
   createTask ex_assigned ''s1'' ''t1'' ''p1'' ''Page'' ''Landing page'' (''2027-01-01'', Some 100) =
     (Response 201 [], ex_assigned\<lparr>tasks := [ex_task TPending],
                                    projects := [ex_project (Some ''s1'') InProgress]\<rparr>) \<and>
   createTask ex_assigned ''s2'' ''t1'' ''p1'' ''Page'' ''Landing page'' (''2027-01-01'', Some 100) =
     (Response 403 ''Not authorized to create tasks for this project'', ex_assigned) \<and>
   project_findUnique
     (snd (createTask ex_assigned ''s1'' ''t1'' ''p1'' ''Page'' ''Landing page'' (''2027-01-01'', Some 100)))
     ''p1'' = Some (ex_project (Some ''s1'') InProgress)"
proof -
  let ?dl = "(''2027-01-01'', Some (100::nat))"
  have f: "project_findUnique ex_assigned ''p1'' = Some (ex_project (Some ''s1'') Assigned)"
    by (simp add: ex_assigned_def ex_defs store_defs)
  have u: "user_findUnique ex_assigned ''s1'' = Some (mk_user ''s1'' ProblemSolver)"
    by (simp add: ex_assigned_def ex_defs store_defs)
  have tx: "text_ok ''t1''" "text_ok ''Page''" "text_ok ''Landing page''"
    by (simp_all add: text_ok_def)
  have fresh: "task_findUnique ex_assigned ''t1'' = None"
    by (simp add: ex_assigned_def ex_defs store_defs)
  have r1: "createTask ex_assigned ''s1'' ''t1'' ''p1'' ''Page'' ''Landing page'' ?dl =
     (Response 201 [], ex_assigned\<lparr>tasks := [ex_task TPending],
                                    projects := [ex_project (Some ''s1'') InProgress]\<rparr>)"
    by (simp add: createTask_def ex_assigned_def ex_defs store_defs trim_examples)
  have r2: "createTask ex_assigned ''s2'' ''t1'' ''p1'' ''Page'' ''Landing page'' ?dl =
     (Response 403 ''Not authorized to create tasks for this project'', ex_assigned)"
    by (simp add: createTask_def ex_assigned_def ex_defs store_defs trim_examples)
  from createTask_contract [OF f r1, of "mk_user ''s1'' ProblemSolver" 100]
    createTask_contract [OF f r2, of "mk_user ''s1'' ProblemSolver" 100] f u tx fresh r1 r2
  show ?thesis by (simp add: ex_defs store_defs trim_examples)
qed

lemma role_updateData_status:
  "role_updateData d u task title description deadline (Some st) = Inr ud \<Longrightarrow>
     ud_status ud = (if may_set (urole u) st then Some st else None)"
  by (cases "urole u")
     (auto simp: role_updateData_def solver_updateData_def buyer_updateData_def
        empty_updateData_def may_set_def split: option.splits if_splits)

lemma role_updateData_authorised:
  assumes "project_findUnique d (tprojectId task) = Some p"
    and "urole u = ProblemSolver \<and> assignedSolverId p = Some (uid u) \<and>
           text_ok title \<and> text_ok description \<and> (fst deadline = [] \<or> snd deadline \<noteq> None) \<or>
         urole u = Buyer \<and> buyerId p = uid u"
  shows "\<exists>ud. role_updateData d u task title description deadline st = Inr ud \<and>
              ud_deadline ud \<noteq> Some None \<and> (\<forall>t. task_written_ok t (apply_updateData ud t))"
  using assms
  by (auto simp: role_updateData_def solver_updateData_def buyer_updateData_def
        empty_updateData_def apply_updateData_def task_written_ok_def written_ok_def)

lemma updateTask_refused:
  "updateTask d actor taskId title description deadline status = (r, d') \<Longrightarrow>
     status_code r \<noteq> 200 \<Longrightarrow> d' = d"
  by (auto simp: updateTask_def split: sum.splits option.splits if_splits)

text \<open>C5. The specification has a status outside the actor's allow-list rejected as
  invalid. The handler ignores it instead: the request still succeeds and the task keeps
  its status (the last theorem of this subsection: a solver asking for "completed" gets
  200 and an unchanged store). What holds, for an update that names a status: a request
  that is refused leaves the store as it was; when the update succeeds, only the tasks
  table changes and the task's status is the requested one if the actor's role may set
  it (a solver: pending, in progress, submitted; a buyer: completed, rejected) and is
  unchanged otherwise; and the update does succeed whenever the status is one of the
  five task statuses and the actor is the project's buyer, or is the project's assigned
  solver sending text the store accepts and a deadline that, if given, is a date.\<close>

theorem updateTask_status_rule:
  assumes u: "user_findUnique d actor = Some u"
    and t: "task_findUnique d taskId = Some task"
    and run: "updateTask d actor taskId title description deadline (Some s) = (r, d')"
  shows "(status_code r \<noteq> 200 \<longrightarrow> d' = d) \<and>
         (status_code r = 200 \<longrightarrow>
           d' = d\<lparr>tasks := tasks d'\<rparr> \<and>
           (\<exists>st task'. parse_task_status s = Some st \<and> task_findUnique d' taskId = Some task' \<and>
               tstatus task' = (if may_set (urole u) st then st else tstatus task))) \<and>
         (parse_task_status s \<noteq> None \<and>
          (\<exists>p. project_findUnique d (tprojectId task) = Some p \<and>
               (urole u = ProblemSolver \<and> assignedSolverId p = Some actor \<and>
                  text_ok title \<and> text_ok description \<and>
                  (fst deadline = [] \<or> snd deadline \<noteq> None) \<or>
                urole u = Buyer \<and> buyerId p = actor)) \<longrightarrow>
           r = Response 200 [])"
proof -
  from u have pr: "protect d actor = Inr u" by (rule protect_found)
  from pr have ua: "uid u = actor" by (simp add: protect_InrD)
  have id: "tid (apply_updateData x y) = tid y" for x y
    by (simp add: apply_updateData_def)
  have zero: "status_code r \<noteq> 200 \<longrightarrow> d' = d"
    using updateTask_refused [OF run] by blast
  have first: "status_code r = 200 \<longrightarrow>
           d' = d\<lparr>tasks := tasks d'\<rparr> \<and>
           (\<exists>st task'. parse_task_status s = Some st \<and> task_findUnique d' taskId = Some task' \<and>
               tstatus task' = (if may_set (urole u) st then st else tstatus task))"
  proof (cases "parse_task_status s")
    case None
    with run show ?thesis
      by (auto simp: updateTask_def pr optional_task_status_def validation_failed_def)
  next
    case (Some st)
    show ?thesis
    proof (cases "role_updateData d u task title description deadline (Some st)")
      case (Inl e)
      with run Some t have "d' = d" "r = e"
        by (simp_all add: updateTask_def pr optional_task_status_def)
      moreover from Inl have "status_code e \<noteq> 200"
        by (auto simp: role_updateData_def server_error_def split: if_splits option.splits)
      ultimately show ?thesis by simp
    next
      case (Inr ud)
      from role_updateData_status [OF Inr]
      have st: "tstatus (apply_updateData ud task) = (if may_set (urole u) st then st else tstatus task)"
        by (simp add: apply_updateData_def)
      show ?thesis
      proof (cases "task_update d taskId (apply_updateData ud)")
        case (Inl e)
        with run Some t Inr show ?thesis
          by (auto simp: updateTask_def pr optional_task_status_def server_error_def
              split: if_splits)
      next
        case d1: (Inr d1)
        show ?thesis
        proof (cases "ud_deadline ud = Some None")
          case True
          with run Some t Inr show ?thesis
            by (auto simp: updateTask_def pr optional_task_status_def server_error_def)
        next
          case False
          with run Some t Inr d1 have "d' = d1"
            by (simp add: updateTask_def pr optional_task_status_def)
          with task_update_InrD [OF d1]
          have d': "d' = d\<lparr>tasks := map (\<lambda>t. if tid t = taskId then apply_updateData ud t else t)
                                         (tasks d)\<rparr>"
            by simp
          then have "task_findUnique d' taskId = Some (apply_updateData ud task)"
            using t by (simp add: task_find_after_update id)
          moreover from d' have "d' = d\<lparr>tasks := tasks d'\<rparr>" by simp
          ultimately show ?thesis using Some st by simp
        qed
      qed
    qed
  qed
  have second: "r = Response 200 []"
    if ok: "parse_task_status s \<noteq> None"
      and p: "project_findUnique d (tprojectId task) = Some p"
        "urole u = ProblemSolver \<and> assignedSolverId p = Some actor \<and>
           text_ok title \<and> text_ok description \<and> (fst deadline = [] \<or> snd deadline \<noteq> None) \<or>
         urole u = Buyer \<and> buyerId p = actor" for p
  proof -
    from ok(1) obtain st where st: "parse_task_status s = Some st" by auto
    from p(2) ua
    have "urole u = ProblemSolver \<and> assignedSolverId p = Some (uid u) \<and>
           text_ok title \<and> text_ok description \<and> (fst deadline = [] \<or> snd deadline \<noteq> None) \<or>
         urole u = Buyer \<and> buyerId p = uid u" by simp
    from role_updateData_authorised [OF p(1) this, of "Some st"]
    obtain ud where ud: "role_updateData d u task title description deadline (Some st) = Inr ud"
      "ud_deadline ud \<noteq> Some None" "\<And>t. task_written_ok t (apply_updateData ud t)" by blast
    from t have "task_findUnique d taskId \<noteq> None" by simp
    from task_update_found [OF this ud(3)] run st t ud(1,2) show ?thesis
      by (simp add: updateTask_def pr optional_task_status_def)
  qed
  from zero first second show ?thesis by blast
qed

theorem updateTask_status_rule_witness:
  "user_findUnique (ex_working TPending) ''s1'' = Some (mk_user ''s1'' ProblemSolver) \<and>
   task_findUnique (ex_working TPending) ''t1'' = Some (ex_task TPending) \<and>
   updateTask (ex_working TPending) ''s1'' ''t1'' [] [] ([], None) (Some ''in_progress'') =
     (Response 200 [], (ex_working TPending)\<lparr>tasks := [ex_task TInProgress]\<rparr>) \<and>
   parse_task_status ''in_progress'' = Some TInProgress \<and>
   may_set ProblemSolver TInProgress \<and>
   project_findUnique (ex_working TPending) ''p1'' = Some (ex_project (Some ''s1'') InProgress) \<and>
   text_ok [] \<and>
   task_findUnique ((ex_working TPending)\<lparr>tasks := [ex_task TInProgress]\<rparr>) ''t1'' =
     Some (ex_task TInProgress) \<and>
   updateTask (ex_working TPending) ''s2'' ''t1'' [] [] ([], None) (Some ''in_progress'') =
     (Response 403 ''Not authorized'', ex_working TPending)"
proof -
  let ?d = "ex_working TPending"
  have u: "user_findUnique ?d ''s1'' = Some (mk_user ''s1'' ProblemSolver)"
    by (simp add: ex_defs store_defs)
  have u2: "user_findUnique ?d ''s2'' = Some (mk_user ''s2'' ProblemSolver)"
    by (simp add: ex_defs store_defs)
  have t: "task_findUnique ?d ''t1'' = Some (ex_task TPending)"
    by (simp add: ex_defs store_defs)
  have r: "updateTask ?d ''s1'' ''t1'' [] [] ([], None) (Some ''in_progress'') =
     (Response 200 [], ?d\<lparr>tasks := [ex_task TInProgress]\<rparr>)"
    by (simp add: updateTask_def role_updateData_def optional_task_status_def parse_task_status_def
      solver_updateData_def apply_updateData_def ex_defs store_defs)
  have r2: "updateTask ?d ''s2'' ''t1'' [] [] ([], None) (Some ''in_progress'') =
     (Response 403 ''Not authorized'', ?d)"
    by (simp add: updateTask_def role_updateData_def optional_task_status_def parse_task_status_def
      solver_updateData_def apply_updateData_def ex_defs store_defs)
  from updateTask_status_rule [OF u t r] updateTask_status_rule [OF u2 t r2] u t r r2
  show ?thesis
    by (simp add: parse_task_status_def may_set_def ex_defs store_defs)
qed

theorem updateTask_ignores_disallowed_status:
  "updateTask (ex_working TPending) ''s1'' ''t1'' [] [] ([], None) (Some ''completed'') =
     (Response 200 [], ex_working TPending) \<and>
   task_findUnique (ex_working TPending) ''t1'' = Some (ex_task TPending)"
  by (simp add: updateTask_def role_updateData_def optional_task_status_def parse_task_status_def
      solver_updateData_def apply_updateData_def ex_defs store_defs)

subsection \<open>Requests\<close>

lemma createRequest_checks_Inl:
  "createRequest_checks d a p = Inl r \<Longrightarrow> 400 \<le> status_code r"
  by (auto simp: createRequest_checks_def protect_def forbidden_role_def validation_failed_def
        not_found_def server_error_def
      split: option.splits if_splits)

lemma createRequest_checks_Inr:
  "createRequest_checks d a p = Inr u \<Longrightarrow> uid u = a"
  by (auto simp: createRequest_checks_def split: sum.splits option.splits if_splits
      dest: protect_InrD)

lemma createRequest_insert_duplicate:
  "request_findByPair d p (uid u) \<noteq> None \<Longrightarrow>
     createRequest_insert d u i p m =
       (if text_ok i \<and> opt_text_ok m then Response 400 ''Request already exists''
        else server_error, d)"
  by (simp add: createRequest_insert_def request_create_def)

text \<open>C8. The specification has a second request for the same (project, solver) pair
  always fail with a conflict. It always fails, and the store is left as it was; but the
  answer is "Request already exists" only when the earlier checks pass. On a project
  that is no longer open the handler answers "Project is not open for requests" first
  (the last theorem of this subsection). What holds, for a pair that already has a
  request: the handler answers with a 4xx status and changes nothing; the answer is
  "Request already exists" when the caller is a problem solver and the project is open;
  and the insert on its own, whatever the checks saw before it, changes nothing either:
  it is refused by the store's unique index and answered with "Request already exists",
  unless the message holds a U+0000, which the store refuses before it looks at the
  index, and the answer is then the handler's 500.\<close>

theorem duplicate_request_refused:
  assumes ex: "request_findByPair d projectId actor = Some existing"
  shows "(\<exists>r. createRequest d actor newId projectId message = (r, d) \<and> 400 \<le> status_code r) \<and>
         (\<forall>u p. user_findUnique d actor = Some u \<and> urole u = ProblemSolver \<and> projectId \<noteq> [] \<and>
                project_findUnique d projectId = Some p \<and> pstatus p = Open \<longrightarrow>
                createRequest d actor newId projectId message =
                  (Response 400 ''Request already exists'', d)) \<and>
         (\<forall>u. uid u = actor \<longrightarrow>
              createRequest_insert d u newId projectId message =
                (if text_ok newId \<and> opt_text_ok message
                 then Response 400 ''Request already exists'' else server_error, d))"
proof -
  have ins: "createRequest_insert d u newId projectId message =
                (if text_ok newId \<and> opt_text_ok message
                 then Response 400 ''Request already exists'' else server_error, d)"
    if "uid u = actor" for u
    using ex that by (simp add: createRequest_insert_duplicate)
  have one: "\<exists>r. createRequest d actor newId projectId message = (r, d) \<and> 400 \<le> status_code r"
  proof (cases "createRequest_checks d actor projectId")
    case (Inl r)
    then show ?thesis
      by (simp add: createRequest_def createRequest_checks_Inl)
  next
    case (Inr u)
    with ins [OF createRequest_checks_Inr [OF Inr]] show ?thesis
      by (simp add: createRequest_def server_error_def)
  qed
  have two: "createRequest d actor newId projectId message =
                  (Response 400 ''Request already exists'', d)"
    if "user_findUnique d actor = Some u" "urole u = ProblemSolver" "projectId \<noteq> []"
       "project_findUnique d projectId = Some p" "pstatus p = Open" for u p
  proof -
    from that(1) have "uid u = actor"
      by (auto simp: user_findUnique_def dest: find_SomeD)
    with that ex show ?thesis
      by (simp add: createRequest_def createRequest_checks_def protect_def authorize_def)
  qed
  from one two ins show ?thesis by blast
qed

theorem duplicate_request_refused_witness:
  "request_findByPair ex_open ''p1'' ''s1'' = Some (ex_request ''r1'' ''s1'' RPending) \<and>
   createRequest ex_open ''s1'' ''r9'' ''p1'' None = (Response 400 ''Request already exists'', ex_open) \<and>
   createRequest_insert ex_open (mk_user ''s1'' ProblemSolver) ''r9'' ''p1'' None =
     (Response 400 ''Request already exists'', ex_open)"
proof -
  have ex: "request_findByPair ex_open ''p1'' ''s1'' = Some (ex_request ''r1'' ''s1'' RPending)"
    by (simp add: ex_defs store_defs)
  have u: "user_findUnique ex_open ''s1'' = Some (mk_user ''s1'' ProblemSolver)"
    "urole (mk_user ''s1'' ProblemSolver) = ProblemSolver" "uid (mk_user ''s1'' ProblemSolver) = ''s1''"
    "project_findUnique ex_open ''p1'' = Some (ex_project None Open)"
    "pstatus (ex_project None Open) = Open"
    by (simp_all add: ex_defs store_defs)
  from duplicate_request_refused [OF ex, of "''r9''" None] u ex
  show ?thesis by (auto simp: text_ok_def opt_text_ok_def)
qed

theorem duplicate_request_on_closed_project:
  "request_findByPair (ex_working TPending) ''p1'' ''s1'' = Some (ex_request ''r1'' ''s1'' RAccepted) \<and>
   createRequest (ex_working TPending) ''s1'' ''r9'' ''p1'' None =
     (Response 400 ''Project is not open for requests'', ex_working TPending)"
  by (simp add: createRequest_def createRequest_checks_def ex_defs store_defs)

subsection \<open>Reviewing a submission\<close>

lemma parse_review_status_cases:
  "parse_review_status s = Some st \<Longrightarrow>
     st = SAccepted \<and> s = ''accepted'' \<or> st = SRejected \<and> s = ''rejected''"
  by (auto simp: parse_review_status_def split: if_splits)

lemma review_rejected_result:
  assumes "task_findUnique d1 (staskId sub) \<noteq> None"
  shows "review_rejected d1 sub status =
     (review_ok status,
      d1\<lparr>tasks := map (\<lambda>t. if tid t = staskId sub then t\<lparr>tstatus := TRejected\<rparr> else t) (tasks d1)\<rparr>)"
  using assms by (simp add: review_rejected_def task_update_found)

lemma review_accepted_result:
  assumes "task_findUnique d1 (staskId sub) \<noteq> None"
    and "project_findUnique d1 (sprojectId sub) \<noteq> None"
  shows "review_accepted d1 sub status =
     (review_ok status,
      (let d2 = d1\<lparr>tasks := map (\<lambda>t. if tid t = staskId sub then t\<lparr>tstatus := TCompleted\<rparr> else t)
                                 (tasks d1)\<rparr>;
           allTasks = filter (\<lambda>t. tprojectId t = sprojectId sub) (tasks d2)
       in if list_all (\<lambda>t. tstatus t = TCompleted) allTasks \<and> allTasks \<noteq> []
          then d2\<lparr>projects := map (\<lambda>q. if pid q = sprojectId sub then q\<lparr>pstatus := Completed\<rparr> else q)
                                   (projects d1)\<rparr>
          else d2))"
  using assms
  by (auto simp: review_accepted_def task_update_found task_findMany_def Let_def
        project_update_def project_findUnique_def)

lemma reviewSubmission_result:
  assumes u: "user_findUnique d actor = Some u" "urole u = Buyer"
    and sub: "submission_findUnique d subId = Some sub"
    and p: "project_findUnique d (sprojectId sub) = Some project" "buyerId project = actor"
    and t: "task_findUnique d (staskId sub) \<noteq> None"
    and st: "parse_review_status status = Some st"
  shows "reviewSubmission d actor subId status now =
     (let d1 = d\<lparr>submissions := map (\<lambda>s. if sid s = subId
                                           then s\<lparr>sstatus := st, reviewedAt := Some now\<rparr> else s)
                                    (submissions d)\<rparr>
      in if st = SAccepted then review_accepted d1 sub status
         else review_rejected d1 sub status)"
proof -
  from u(1) have pr: "protect d actor = Inr u" by (rule protect_found)
  from u(1) have ua: "uid u = actor" by (rule user_findUnique_uid)
  from sub have su: "submission_update d subId (\<lambda>s. s\<lparr>sstatus := x, reviewedAt := y\<rparr>) =
      Inr (d\<lparr>submissions := map (\<lambda>s. if sid s = subId then s\<lparr>sstatus := x, reviewedAt := y\<rparr> else s)
                                 (submissions d)\<rparr>)" for x y
    by (simp add: submission_update_def list_all_iff)
  from parse_review_status_cases [OF st] show ?thesis
    using u(2) sub p st ua
    by (auto simp: reviewSubmission_def pr authorize_def su Let_def)
qed

lemma reviewSubmission_tables:
  assumes u: "user_findUnique d actor = Some u" "urole u = Buyer"
    and sub: "submission_findUnique d subId = Some sub"
    and p: "project_findUnique d (sprojectId sub) = Some project" "buyerId project = actor"
    and t: "task_findUnique d (staskId sub) \<noteq> None"
    and st: "parse_review_status status = Some st"
    and run: "reviewSubmission d actor subId status now = (r, d')"
  shows "r = review_ok status"
    and "submissions d' = map (\<lambda>s. if sid s = subId then s\<lparr>sstatus := st, reviewedAt := Some now\<rparr> else s)
                              (submissions d)"
    and "tasks d' = map (\<lambda>t. if tid t = staskId sub
                              then t\<lparr>tstatus := (if st = SAccepted then TCompleted else TRejected)\<rparr>
                              else t) (tasks d)"
    and "projects d' =
           (if st = SAccepted \<and>
               list_all (\<lambda>t. tstatus t = TCompleted) (filter (\<lambda>t. tprojectId t = sprojectId sub) (tasks d')) \<and>
               filter (\<lambda>t. tprojectId t = sprojectId sub) (tasks d') \<noteq> []
            then map (\<lambda>q. if pid q = sprojectId sub then q\<lparr>pstatus := Completed\<rparr> else q) (projects d)
            else projects d)"
proof -
  let ?d1 = "d\<lparr>submissions := map (\<lambda>s. if sid s = subId
                                 then s\<lparr>sstatus := st, reviewedAt := Some now\<rparr> else s) (submissions d)\<rparr>"
  have t1: "task_findUnique ?d1 (staskId sub) \<noteq> None"
    using t by (simp add: task_findUnique_def)
  have p1: "project_findUnique ?d1 (sprojectId sub) \<noteq> None"
    using p(1) by (simp add: project_findUnique_def)
  have eq: "(r, d') = (if st = SAccepted then review_accepted ?d1 sub status
                       else review_rejected ?d1 sub status)"
    using reviewSubmission_result [OF u sub p t st, of now] run by (simp add: Let_def)
  show "r = review_ok status"
    using eq by (simp add: review_accepted_result [OF t1 p1] review_rejected_result [OF t1]
        split: if_splits)
  show "submissions d' = map (\<lambda>s. if sid s = subId then s\<lparr>sstatus := st, reviewedAt := Some now\<rparr> else s)
                              (submissions d)"
    using eq by (auto simp: review_accepted_result [OF t1 p1] review_rejected_result [OF t1] Let_def
        split: if_splits)
  show tk: "tasks d' = map (\<lambda>t. if tid t = staskId sub
                              then t\<lparr>tstatus := (if st = SAccepted then TCompleted else TRejected)\<rparr>
                              else t) (tasks d)"
    using eq by (auto simp: review_accepted_result [OF t1 p1] review_rejected_result [OF t1] Let_def
        split: if_splits)
  show "projects d' =
           (if st = SAccepted \<and>
               list_all (\<lambda>t. tstatus t = TCompleted) (filter (\<lambda>t. tprojectId t = sprojectId sub) (tasks d')) \<and>
               filter (\<lambda>t. tprojectId t = sprojectId sub) (tasks d') \<noteq> []
            then map (\<lambda>q. if pid q = sprojectId sub then q\<lparr>pstatus := Completed\<rparr> else q) (projects d)
            else projects d)"
    unfolding tk
    using eq by (auto simp: review_accepted_result [OF t1 p1] review_rejected_result [OF t1] Let_def
        split: if_splits)
qed

lemma completed_after_accept:
  "list_all (\<lambda>t. tstatus t = TCompleted)
     (filter (\<lambda>t. tprojectId t = p) (map (\<lambda>t. if tid t = i then t\<lparr>tstatus := TCompleted\<rparr> else t) ts)) =
   list_all (\<lambda>t. tid t = i \<or> tstatus t = TCompleted) (filter (\<lambda>t. tprojectId t = p) ts)"
  by (induction ts) auto

lemma nonempty_after_accept:
  "(filter (\<lambda>t. tprojectId t = p) (map (\<lambda>t. if tid t = i then t\<lparr>tstatus := x\<rparr> else t) ts) = []) =
   (filter (\<lambda>t. tprojectId t = p) ts = [])"
  by (induction ts) auto

lemma reviewSubmission_store:
  assumes u: "user_findUnique d actor = Some u" "urole u = Buyer"
    and sub: "submission_findUnique d subId = Some sub"
    and p: "project_findUnique d (sprojectId sub) = Some project" "buyerId project = actor"
    and t: "task_findUnique d (staskId sub) \<noteq> None"
    and st: "parse_review_status status = Some st"
    and run: "reviewSubmission d actor subId status now = (r, d')"
  shows "d' = d\<lparr>submissions := submissions d', tasks := tasks d', projects := projects d'\<rparr>"
proof -
  let ?d1 = "d\<lparr>submissions := map (\<lambda>s. if sid s = subId
                                 then s\<lparr>sstatus := st, reviewedAt := Some now\<rparr> else s) (submissions d)\<rparr>"
  have t1: "task_findUnique ?d1 (staskId sub) \<noteq> None"
    using t by (simp add: task_findUnique_def)
  have p1: "project_findUnique ?d1 (sprojectId sub) \<noteq> None"
    using p(1) by (simp add: project_findUnique_def)
  have eq: "(r, d') = (if st = SAccepted then review_accepted ?d1 sub status
                       else review_rejected ?d1 sub status)"
    using reviewSubmission_result [OF u sub p t st, of now] run by (simp add: Let_def)
  then show ?thesis
    by (auto simp: review_accepted_result [OF t1 p1] review_rejected_result [OF t1] Let_def
        split: if_splits)
qed

text \<open>C4. For a buyer reviewing a submission of one of its own projects (the
  submission's task present). On "accepted" the review succeeds, the submission's task
  becomes completed and no other task changes, and the project becomes completed
  exactly when, before the review, the project had at least one task and each of its
  tasks other than the reviewed one was already completed; otherwise the projects table
  is as it was, so accepting a task that is not the last one leaves the project
  unchanged. No other project changes. On "rejected" the review succeeds, the task
  becomes rejected, no other task changes and the projects table is unchanged. In both
  cases the submission gets the decision and the time of the review, and users,
  requests and files are untouched.\<close>

theorem review_sets_task_and_project:
  assumes u: "user_findUnique d actor = Some u" "urole u = Buyer"
    and sub: "submission_findUnique d subId = Some sub"
    and p: "project_findUnique d (sprojectId sub) = Some project" "buyerId project = actor"
    and t: "task_findUnique d (staskId sub) = Some task"
    and run: "reviewSubmission d actor subId status now = (r, d')"
  shows "(status = ''accepted'' \<longrightarrow>
            r = review_ok status \<and>
            d' = d\<lparr>submissions := map (\<lambda>s. if sid s = subId
                                            then s\<lparr>sstatus := SAccepted, reviewedAt := Some now\<rparr> else s)
                                     (submissions d),
                   tasks := map (\<lambda>t. if tid t = staskId sub then t\<lparr>tstatus := TCompleted\<rparr> else t)
                                (tasks d),
                   projects :=
                     (if list_all (\<lambda>t. tid t = staskId sub \<or> tstatus t = TCompleted)
                           (filter (\<lambda>t. tprojectId t = sprojectId sub) (tasks d)) \<and>
                         filter (\<lambda>t. tprojectId t = sprojectId sub) (tasks d) \<noteq> []
                      then map (\<lambda>q. if pid q = sprojectId sub then q\<lparr>pstatus := Completed\<rparr> else q)
                             (projects d)
                      else projects d)\<rparr> \<and>
            task_findUnique d' (staskId sub) = Some (task\<lparr>tstatus := TCompleted\<rparr>) \<and>
            project_findUnique d' (sprojectId sub) =
              Some (if list_all (\<lambda>t. tid t = staskId sub \<or> tstatus t = TCompleted)
                         (filter (\<lambda>t. tprojectId t = sprojectId sub) (tasks d)) \<and>
                       filter (\<lambda>t. tprojectId t = sprojectId sub) (tasks d) \<noteq> []
                    then project\<lparr>pstatus := Completed\<rparr> else project) \<and>
            (list_all (\<lambda>t. tid t = staskId sub \<or> tstatus t = TCompleted)
                 (filter (\<lambda>t. tprojectId t = sprojectId sub) (tasks d)) \<and>
               filter (\<lambda>t. tprojectId t = sprojectId sub) (tasks d) \<noteq> []) =
             (list_all (\<lambda>t. tstatus t = TCompleted)
                 (filter (\<lambda>t. tprojectId t = sprojectId sub) (tasks d')) \<and>
               filter (\<lambda>t. tprojectId t = sprojectId sub) (tasks d') \<noteq> [])) \<and>
         (status = ''rejected'' \<longrightarrow>
            r = review_ok status \<and>
            d' = d\<lparr>submissions := map (\<lambda>s. if sid s = subId
                                            then s\<lparr>sstatus := SRejected, reviewedAt := Some now\<rparr> else s)
                                     (submissions d),
                   tasks := map (\<lambda>t. if tid t = staskId sub then t\<lparr>tstatus := TRejected\<rparr> else t)
                                (tasks d)\<rparr> \<and>
            task_findUnique d' (staskId sub) = Some (task\<lparr>tstatus := TRejected\<rparr>) \<and>
            projects d' = projects d)"
proof -
  from t have t': "task_findUnique d (staskId sub) \<noteq> None" by simp
  let ?c = "list_all (\<lambda>t. tid t = staskId sub \<or> tstatus t = TCompleted)
                 (filter (\<lambda>t. tprojectId t = sprojectId sub) (tasks d)) \<and>
               filter (\<lambda>t. tprojectId t = sprojectId sub) (tasks d) \<noteq> []"
  let ?c' = "list_all (\<lambda>t. tstatus t = TCompleted)
                 (filter (\<lambda>t. tprojectId t = sprojectId sub) (tasks d')) \<and>
               filter (\<lambda>t. tprojectId t = sprojectId sub) (tasks d') \<noteq> []"
  have acc: "r = review_ok status \<and>
            d' = d\<lparr>submissions := map (\<lambda>s. if sid s = subId
                                            then s\<lparr>sstatus := SAccepted, reviewedAt := Some now\<rparr> else s)
                                     (submissions d),
                   tasks := map (\<lambda>t. if tid t = staskId sub then t\<lparr>tstatus := TCompleted\<rparr> else t)
                                (tasks d),
                   projects :=
                     (if ?c
                      then map (\<lambda>q. if pid q = sprojectId sub then q\<lparr>pstatus := Completed\<rparr> else q)
                             (projects d)
                      else projects d)\<rparr> \<and>
            task_findUnique d' (staskId sub) = Some (task\<lparr>tstatus := TCompleted\<rparr>) \<and>
            project_findUnique d' (sprojectId sub) =
              Some (if ?c then project\<lparr>pstatus := Completed\<rparr> else project) \<and>
            ?c = ?c'"
    if s: "status = ''accepted''"
  proof -
    have st: "parse_review_status status = Some SAccepted" by (simp add: s parse_review_status_def)
    note tb = reviewSubmission_tables [OF u sub p t' st run]
    note fr = reviewSubmission_store [OF u sub p t' st run]
    have tk: "tasks d' = map (\<lambda>t. if tid t = staskId sub then t\<lparr>tstatus := TCompleted\<rparr> else t) (tasks d)"
      using tb(3) by simp
    have cc: "?c = ?c'"
      unfolding tk by (simp only: completed_after_accept nonempty_after_accept)
    have pj: "projects d' = (if ?c then map (\<lambda>q. if pid q = sprojectId sub
                                                  then q\<lparr>pstatus := Completed\<rparr> else q) (projects d)
                             else projects d)"
      using tb(4) unfolding cc by simp
    have a: "task_findUnique d' (staskId sub) = Some (task\<lparr>tstatus := TCompleted\<rparr>)"
      using t unfolding task_findUnique_def tk by (simp add: find_map_update)
    have b: "project_findUnique d' (sprojectId sub) =
              Some (if ?c then project\<lparr>pstatus := Completed\<rparr> else project)"
      using p(1) unfolding project_findUnique_def pj by (simp add: find_map_update)
    have e: "d' = d\<lparr>submissions := map (\<lambda>s. if sid s = subId
                                            then s\<lparr>sstatus := SAccepted, reviewedAt := Some now\<rparr> else s)
                                     (submissions d),
                   tasks := map (\<lambda>t. if tid t = staskId sub then t\<lparr>tstatus := TCompleted\<rparr> else t)
                                (tasks d),
                   projects :=
                     (if ?c
                      then map (\<lambda>q. if pid q = sprojectId sub then q\<lparr>pstatus := Completed\<rparr> else q)
                             (projects d)
                      else projects d)\<rparr>"
      using fr unfolding tb(2) tk pj .
    from tb(1) e a b cc show ?thesis by blast
  qed
  have rej: "r = review_ok status \<and>
            d' = d\<lparr>submissions := map (\<lambda>s. if sid s = subId
                                            then s\<lparr>sstatus := SRejected, reviewedAt := Some now\<rparr> else s)
                                     (submissions d),
                   tasks := map (\<lambda>t. if tid t = staskId sub then t\<lparr>tstatus := TRejected\<rparr> else t)
                                (tasks d)\<rparr> \<and>
            task_findUnique d' (staskId sub) = Some (task\<lparr>tstatus := TRejected\<rparr>) \<and>
            projects d' = projects d"
    if s: "status = ''rejected''"
  proof -
    have st: "parse_review_status status = Some SRejected" by (simp add: s parse_review_status_def)
    note tb = reviewSubmission_tables [OF u sub p t' st run]
    note fr = reviewSubmission_store [OF u sub p t' st run]
    have tk: "tasks d' = map (\<lambda>t. if tid t = staskId sub then t\<lparr>tstatus := TRejected\<rparr> else t) (tasks d)"
      using tb(3) by simp
    have pj: "projects d' = projects d" using tb(4) by simp
    have a: "task_findUnique d' (staskId sub) = Some (task\<lparr>tstatus := TRejected\<rparr>)"
      using t unfolding task_findUnique_def tk by (simp add: find_map_update)
    have e: "d' = d\<lparr>submissions := map (\<lambda>s. if sid s = subId
                                            then s\<lparr>sstatus := SRejected, reviewedAt := Some now\<rparr> else s)
                                     (submissions d),
                   tasks := map (\<lambda>t. if tid t = staskId sub then t\<lparr>tstatus := TRejected\<rparr> else t)
                                (tasks d)\<rparr>"
      using fr unfolding tb(2) tk pj by simp
    from tb(1) e a pj show ?thesis by blast
  qed
  from acc rej show ?thesis by blast
qed

theorem review_sets_task_and_project_witness:
  "user_findUnique ex_submitted ''b1'' = Some (mk_user ''b1'' Buyer) \<and>
   submission_findUnique ex_submitted ''u1'' = Some (ex_submission SPending None) \<and>
   project_findUnique ex_submitted ''p1'' = Some (ex_project (Some ''s1'') InProgress) \<and>
   task_findUnique ex_submitted ''t1'' = Some (ex_task TSubmitted) \<and>
   reviewSubmission ex_submitted ''b1'' ''u1'' ''accepted'' 7 =
     (review_ok ''accepted'',
      ex_submitted\<lparr>submissions := [ex_submission SAccepted (Some 7)], tasks := [ex_task TCompleted],
                   projects := [ex_project (Some ''s1'') Completed]\<rparr>) \<and>
   reviewSubmission ex_submitted ''b1'' ''u1'' ''rejected'' 7 =
     (review_ok ''rejected'',
      ex_submitted\<lparr>submissions := [ex_submission SRejected (Some 7)], tasks := [ex_task TRejected]\<rparr>) \<and>
   project_findUnique (snd (reviewSubmission ex_submitted ''b1'' ''u1'' ''accepted'' 7)) ''p1'' =
     Some (ex_project (Some ''s1'') Completed) \<and>
   projects (snd (reviewSubmission ex_submitted ''b1'' ''u1'' ''rejected'' 7)) = projects ex_submitted \<and>
   task_findUnique ex_two_tasks ''t1'' = Some (ex_task TSubmitted) \<and>
   reviewSubmission ex_two_tasks ''b1'' ''u1'' ''accepted'' 7 =
     (review_ok ''accepted'',
      ex_two_tasks\<lparr>submissions := [ex_submission SAccepted (Some 7)],
                   tasks := [ex_task TCompleted, (ex_task TPending)\<lparr>tid := ''t2''\<rparr>]\<rparr>) \<and>
   project_findUnique (snd (reviewSubmission ex_two_tasks ''b1'' ''u1'' ''accepted'' 7)) ''p1'' =
     Some (ex_project (Some ''s1'') InProgress)"
proof -
  have u: "user_findUnique ex_submitted ''b1'' = Some (mk_user ''b1'' Buyer)"
    "urole (mk_user ''b1'' Buyer) = Buyer"
    by (simp_all add: ex_defs ex_defs2 store_defs)
  have sub: "submission_findUnique ex_submitted ''u1'' = Some (ex_submission SPending None)"
    by (simp add: ex_defs ex_defs2 store_defs)
  have p: "project_findUnique ex_submitted (sprojectId (ex_submission SPending None)) =
             Some (ex_project (Some ''s1'') InProgress)"
    "buyerId (ex_project (Some ''s1'') InProgress) = ''b1''"
    by (simp_all add: ex_defs ex_defs2 store_defs)
  have t: "task_findUnique ex_submitted (staskId (ex_submission SPending None)) = Some (ex_task TSubmitted)"
    by (simp add: ex_defs ex_defs2 store_defs)
  have ra: "reviewSubmission ex_submitted ''b1'' ''u1'' ''accepted'' 7 =
     (review_ok ''accepted'',
      ex_submitted\<lparr>submissions := [ex_submission SAccepted (Some 7)], tasks := [ex_task TCompleted],
                   projects := [ex_project (Some ''s1'') Completed]\<rparr>)"
    by (simp add: reviewSubmission_def review_accepted_def parse_review_status_def
        ex_defs ex_defs2 store_defs Let_def)
  have rr: "reviewSubmission ex_submitted ''b1'' ''u1'' ''rejected'' 7 =
     (review_ok ''rejected'',
      ex_submitted\<lparr>submissions := [ex_submission SRejected (Some 7)], tasks := [ex_task TRejected]\<rparr>)"
    by (simp add: reviewSubmission_def review_rejected_def parse_review_status_def
        ex_defs ex_defs2 store_defs Let_def)
  have u2: "user_findUnique ex_two_tasks ''b1'' = Some (mk_user ''b1'' Buyer)"
    by (simp add: ex_defs ex_defs2 store_defs)
  have sub2: "submission_findUnique ex_two_tasks ''u1'' = Some (ex_submission SPending None)"
    by (simp add: ex_defs ex_defs2 store_defs)
  have p2: "project_findUnique ex_two_tasks (sprojectId (ex_submission SPending None)) =
             Some (ex_project (Some ''s1'') InProgress)"
    by (simp add: ex_defs ex_defs2 store_defs)
  have t2: "task_findUnique ex_two_tasks (staskId (ex_submission SPending None)) = Some (ex_task TSubmitted)"
    by (simp add: ex_defs ex_defs2 store_defs)
  have r2: "reviewSubmission ex_two_tasks ''b1'' ''u1'' ''accepted'' 7 =
     (review_ok ''accepted'',
      ex_two_tasks\<lparr>submissions := [ex_submission SAccepted (Some 7)],
                   tasks := [ex_task TCompleted, (ex_task TPending)\<lparr>tid := ''t2''\<rparr>]\<rparr>)"
    by (simp add: reviewSubmission_def review_accepted_def parse_review_status_def
        ex_defs ex_defs2 store_defs Let_def)
  from review_sets_task_and_project [OF u sub p t ra] review_sets_task_and_project [OF u sub p t rr]
    review_sets_task_and_project [OF u2 u(2) sub2 p2 p(2) t2 r2]
    u sub p t ra rr t2 r2
  show ?thesis by (simp add: ex_defs ex_defs2 store_defs)
qed

text \<open>C10. For a buyer reviewing a submission of one of its own projects (the
  submission's task present), whatever the status of the submission and of the task
  before: the review succeeds with either decision, the submission gets the decision as
  its status and the time of the review, and the task becomes completed on "accepted"
  and rejected on "rejected".\<close>

theorem review_overwrites_any_status:
  assumes u: "user_findUnique d actor = Some u" "urole u = Buyer"
    and sub: "submission_findUnique d subId = Some sub"
    and p: "project_findUnique d (sprojectId sub) = Some project" "buyerId project = actor"
    and t: "task_findUnique d (staskId sub) = Some task"
    and st: "parse_review_status status = Some st"
  shows "\<exists>d'. reviewSubmission d actor subId status now = (review_ok status, d') \<and>
           submission_findUnique d' subId = Some (sub\<lparr>sstatus := st, reviewedAt := Some now\<rparr>) \<and>
           task_findUnique d' (staskId sub) =
             Some (task\<lparr>tstatus := (if st = SAccepted then TCompleted else TRejected)\<rparr>)"
proof -
  from t have t': "task_findUnique d (staskId sub) \<noteq> None" by simp
  obtain r d' where run: "reviewSubmission d actor subId status now = (r, d')"
    by (cases "reviewSubmission d actor subId status now") blast
  note tb = reviewSubmission_tables [OF u sub p t' st run]
  have a: "submission_findUnique d' subId = Some (sub\<lparr>sstatus := st, reviewedAt := Some now\<rparr>)"
    using sub unfolding submission_findUnique_def tb(2) by (simp add: find_map_update)
  have b: "task_findUnique d' (staskId sub) =
             Some (task\<lparr>tstatus := (if st = SAccepted then TCompleted else TRejected)\<rparr>)"
    using t unfolding task_findUnique_def tb(3) by (simp add: find_map_update)
  from run tb(1) a b show ?thesis by simp
qed

theorem review_overwrites_any_status_witness:
  "user_findUnique ex_done ''b1'' = Some (mk_user ''b1'' Buyer) \<and>
   submission_findUnique ex_done ''u1'' = Some (ex_submission SAccepted (Some 5)) \<and>
   project_findUnique ex_done ''p1'' = Some (ex_project (Some ''s1'') Completed) \<and>
   task_findUnique ex_done ''t1'' = Some (ex_task TCompleted) \<and>
   parse_review_status ''rejected'' = Some SRejected \<and>
   reviewSubmission ex_done ''b1'' ''u1'' ''rejected'' 9 =
     (review_ok ''rejected'',
      ex_done\<lparr>submissions := [ex_submission SRejected (Some 9)], tasks := [ex_task TRejected]\<rparr>)"
proof -
  have u: "user_findUnique ex_done ''b1'' = Some (mk_user ''b1'' Buyer)"
    "urole (mk_user ''b1'' Buyer) = Buyer"
    by (simp_all add: ex_defs ex_defs2 store_defs)
  have sub: "submission_findUnique ex_done ''u1'' = Some (ex_submission SAccepted (Some 5))"
    by (simp add: ex_defs ex_defs2 store_defs)
  have p: "project_findUnique ex_done (sprojectId (ex_submission SAccepted (Some 5))) =
             Some (ex_project (Some ''s1'') Completed)"
    "buyerId (ex_project (Some ''s1'') Completed) = ''b1''"
    by (simp_all add: ex_defs ex_defs2 store_defs)
  have t: "task_findUnique ex_done (staskId (ex_submission SAccepted (Some 5))) = Some (ex_task TCompleted)"
    by (simp add: ex_defs ex_defs2 store_defs)
  have st: "parse_review_status ''rejected'' = Some SRejected"
    by (simp add: parse_review_status_def)
  have rr: "reviewSubmission ex_done ''b1'' ''u1'' ''rejected'' 9 =
     (review_ok ''rejected'',
      ex_done\<lparr>submissions := [ex_submission SRejected (Some 9)], tasks := [ex_task TRejected]\<rparr>)"
    by (simp add: reviewSubmission_def review_rejected_def parse_review_status_def
        ex_defs ex_defs2 store_defs Let_def)
  from review_overwrites_any_status [OF u sub p t st, of 9] u sub p t st rr
  show ?thesis by (simp add: ex_defs ex_defs2 store_defs)
qed

subsection \<open>Submitting a file\<close>

lemma filter_unique_key:
  "distinct (map k xs) \<Longrightarrow> find (\<lambda>x. k x = i) xs = Some e \<Longrightarrow> filter (\<lambda>x. k x = i) xs = [e]"
proof (induction xs)
  case Nil
  then show ?case by simp
next
  case (Cons a xs)
  show ?case
  proof (cases "k a = i")
    case True
    with Cons.prems have "a = e" by simp
    from Cons.prems have "k a \<notin> k ` set xs" by simp
    with True have "\<forall>x\<in>set xs. k x \<noteq> i" by (metis imageI)
    then have "filter (\<lambda>x. k x = i) xs = []" by (simp add: filter_empty_conv)
    with True \<open>a = e\<close> show ?thesis by simp
  next
    case False
    with Cons show ?thesis by simp
  qed
qed

lemma filter_none_key: "find (\<lambda>x. k x = i) xs = None \<Longrightarrow> filter (\<lambda>x. k x = i) xs = []"
  by (induction xs) (auto split: if_splits)

lemma unlink_if_exists_files: "unlink_if_exists d p = d\<lparr>files := removeAll p (files d)\<rparr>"
  by (simp add: unlink_if_exists_def fs_exists_def fs_unlink_def)

lemma replaceSubmission_result:
  assumes "filter (\<lambda>s. staskId s = taskId) (submissions d) = [e]"
    and "task_findUnique d taskId \<noteq> None"
  shows "replaceSubmission d e taskId path name sz message =
     (if written_ok (filePath e) path \<and> written_ok (fileName e) name \<and>
         (case message of None \<Rightarrow> True | Some m \<Rightarrow> m = [] \<or> Some m = smessage e \<or> text_ok m)
      then
       (Response 200 ''Submission updated successfully'',
        (unlink_if_exists d (filePath e))
          \<lparr>submissions := map (\<lambda>s. if staskId s = taskId
                then s\<lparr>filePath := path, fileName := name, fileSize := sz,
                       smessage := (case message of None \<Rightarrow> smessage e
                                    | Some m \<Rightarrow> if m = [] then smessage e else Some m),
                       sstatus := SPending\<rparr>
                else s) (submissions d),
           tasks := map (\<lambda>t. if tid t = taskId then t\<lparr>tstatus := TSubmitted\<rparr> else t) (tasks d)\<rparr>)
      else (server_error, catch_cleanup (unlink_if_exists d (filePath e)) path))"
proof -
  let ?g = "\<lambda>s. s\<lparr>filePath := path, fileName := name, fileSize := sz,
                   smessage := (case message of None \<Rightarrow> smessage e
                                | Some m \<Rightarrow> if m = [] then smessage e else Some m),
                   sstatus := SPending\<rparr>"
  let ?d1 = "unlink_if_exists d (filePath e)"
  have "e \<in> set (filter (\<lambda>s. staskId s = taskId) (submissions d))"
    unfolding assms(1) by simp
  then have found: "submission_findByTask ?d1 taskId \<noteq> None"
    by (auto simp: submission_findByTask_def find_None_iff)
  have w: "list_all (\<lambda>s. submission_written_ok s (?g s))
             (filter (\<lambda>s. staskId s = taskId) (submissions ?d1)) =
           (written_ok (filePath e) path \<and> written_ok (fileName e) name \<and>
            (case message of None \<Rightarrow> True | Some m \<Rightarrow> m = [] \<or> Some m = smessage e \<or> text_ok m))"
    using assms(1)
    by (auto simp: submission_written_ok_def opt_written_ok_def opt_text_ok_def written_ok_def
        split: option.splits)
  have su: "submission_updateByTask ?d1 taskId ?g =
      (if written_ok (filePath e) path \<and> written_ok (fileName e) name \<and>
          (case message of None \<Rightarrow> True | Some m \<Rightarrow> m = [] \<or> Some m = smessage e \<or> text_ok m)
       then Inr (?d1\<lparr>submissions := map (\<lambda>s. if staskId s = taskId then ?g s else s) (submissions d)\<rparr>)
       else Inl UnknownRequestError)"
    using found unfolding submission_updateByTask_def w by auto
  have tf: "task_findUnique (?d1\<lparr>submissions := x\<rparr>) taskId \<noteq> None" for x
    using assms(2) by (simp add: task_findUnique_def)
  show ?thesis
    unfolding replaceSubmission_def Let_def su
    by (simp add: task_update_found [OF tf])
qed

lemma newSubmission_result:
  assumes "submission_findUnique d newId = None" and "submission_findByTask d taskId = None"
    and "task_findUnique d taskId \<noteq> None" and "project_findUnique d (tprojectId task) \<noteq> None"
    and "user_findUnique d (uid u) \<noteq> None"
  shows "newSubmission d u task newId taskId path name sz message =
     (if text_ok newId \<and> text_ok path \<and> text_ok name \<and> opt_text_ok message
      then
       (Response 201 ''Submission created successfully'',
        d\<lparr>submissions := submissions d @
             [\<lparr>sid = newId, staskId = taskId, sprojectId = tprojectId task, ssolverId = uid u,
               filePath = path, fileName = name, fileSize = sz, smessage = message,
               sstatus = SPending, reviewedAt = None\<rparr>],
          tasks := map (\<lambda>t. if tid t = taskId then t\<lparr>tstatus := TSubmitted\<rparr> else t) (tasks d)\<rparr>)
      else (server_error, catch_cleanup d path))"
proof -
  let ?s = "\<lparr>sid = newId, staskId = taskId, sprojectId = tprojectId task, ssolverId = uid u,
             filePath = path, fileName = name, fileSize = sz, smessage = message,
             sstatus = SPending, reviewedAt = None\<rparr>"
  have sc: "submission_create d ?s =
      (if text_ok newId \<and> text_ok path \<and> text_ok name \<and> opt_text_ok message
       then Inr (d\<lparr>submissions := submissions d @ [?s]\<rparr>) else Inl UnknownRequestError)"
    using assms by (auto simp: submission_create_def)
  have tf: "task_findUnique (d\<lparr>submissions := x\<rparr>) taskId \<noteq> None" for x
    using assms(3) by (simp add: task_findUnique_def)
  show ?thesis
    unfolding newSubmission_def sc
    by (simp add: task_update_found [OF tf])
qed

lemma lookups_fs_write [simp]:
  "user_findUnique (fs_write d p) = user_findUnique d"
  "project_findUnique (fs_write d p) = project_findUnique d"
  "task_findUnique (fs_write d p) = task_findUnique d"
  "submission_findUnique (fs_write d p) = submission_findUnique d"
  "submission_findByTask (fs_write d p) = submission_findByTask d"
  by (simp_all add: fun_eq_iff user_findUnique_def project_findUnique_def task_findUnique_def
      submission_findUnique_def submission_findByTask_def)

lemma createSubmission_authorised:
  assumes u: "user_findUnique d actor = Some u" "urole u = ProblemSolver"
    and t: "task_findUnique d taskId = Some task" "taskId \<noteq> []"
    and p: "project_findUnique d (tprojectId task) = Some project"
      "assignedSolverId project = Some actor"
  shows "createSubmission d actor newId (Upload path name sz) taskId message =
     (case submission_findByTask d taskId of
        Some existing \<Rightarrow> replaceSubmission (fs_write d path) existing taskId path name sz message
      | None \<Rightarrow> newSubmission (fs_write d path) u task newId taskId path name sz message)"
proof -
  from u(1) have pr: "protect d actor = Inr u" by (rule protect_found)
  from u(1) have ua: "uid u = actor" by (rule user_findUnique_uid)
  show ?thesis
    using u(2) t p ua
    by (simp add: createSubmission_def submitFile_def pr authorize_def)
qed

text \<open>C6. For a problem solver uploading a file for a task of a project assigned to it,
  with the store's unique index on the task id in place and a fresh submission id. The
  index still holds afterwards, whatever the outcome. When the file's path and name,
  the message and the new id are text the store accepts (no U+0000), the request
  succeeds; afterwards the task has exactly one submission, with status pending and the
  new file; the task's status is submitted whatever it was. If the task had a submission
  it is the same row (same id, updated in place, the table no longer) and the answer is
  200; if not, a row is appended and the answer is 201. When the request does not
  succeed, the answer is the handler's 500 and no table has changed; the uploaded file
  is removed again, and so is the old file of a submission that was to be replaced,
  which the handler deletes before it writes to the store.\<close>

theorem createSubmission_one_per_task:
  assumes u: "user_findUnique d actor = Some u" "urole u = ProblemSolver"
    and t: "task_findUnique d taskId = Some task" "taskId \<noteq> []"
    and p: "project_findUnique d (tprojectId task) = Some project"
      "assignedSolverId project = Some actor"
    and uniq: "distinct (map staskId (submissions d))"
    and fresh: "submission_findUnique d newId = None"
    and run: "createSubmission d actor newId (Upload path name sz) taskId message = (r, d')"
  shows "(text_ok newId \<and> text_ok path \<and> text_ok name \<and> opt_text_ok message \<longrightarrow>
          (\<exists>s'. filter (\<lambda>s. staskId s = taskId) (submissions d') = [s'] \<and>
               sstatus s' = SPending \<and> filePath s' = path \<and> fileName s' = name \<and> fileSize s' = sz \<and>
               (case submission_findByTask d taskId of
                  Some e \<Rightarrow> r = Response 200 ''Submission updated successfully'' \<and> sid s' = sid e \<and>
                            length (submissions d') = length (submissions d)
                | None \<Rightarrow> r = Response 201 ''Submission created successfully'' \<and> sid s' = newId \<and>
                          length (submissions d') = Suc (length (submissions d)))) \<and>
          task_findUnique d' taskId = Some (task\<lparr>tstatus := TSubmitted\<rparr>)) \<and>
         (status_code r \<noteq> 200 \<and> status_code r \<noteq> 201 \<longrightarrow>
          r = server_error \<and>
          d' = d\<lparr>files := (case submission_findByTask d taskId of
                             Some e \<Rightarrow> removeAll path (removeAll (filePath e) (List.insert path (files d)))
                           | None \<Rightarrow> removeAll path (List.insert path (files d)))\<rparr>) \<and>
         distinct (map staskId (submissions d'))"
proof (cases "submission_findByTask d taskId")
  case None
  let ?s = "\<lparr>sid = newId, staskId = taskId, sprojectId = tprojectId task, ssolverId = uid u,
             filePath = path, fileName = name, fileSize = sz, smessage = message,
             sstatus = SPending, reviewedAt = None\<rparr>"
  let ?ok = "text_ok newId \<and> text_ok path \<and> text_ok name \<and> opt_text_ok message"
  from u(1) have uu: "user_findUnique d (uid u) \<noteq> None" by (simp add: user_findUnique_uid)
  have res: "(r, d') = (if ?ok then (Response 201 ''Submission created successfully'',
      (fs_write d path)\<lparr>submissions := submissions d @ [?s],
        tasks := map (\<lambda>t. if tid t = taskId then t\<lparr>tstatus := TSubmitted\<rparr> else t) (tasks d)\<rparr>)
      else (server_error, catch_cleanup (fs_write d path) path))"
    using run createSubmission_authorised [OF u t p, of newId path name sz message] None
      newSubmission_result [of "fs_write d path" newId taskId task u path name sz message]
      fresh t(1) p(1) uu
    by (auto split: if_splits)
  from None have none: "filter (\<lambda>s. staskId s = taskId) (submissions d) = []"
    unfolding submission_findByTask_def by (rule filter_none_key)
  then have notin: "taskId \<notin> staskId ` set (submissions d)"
    by (auto simp: filter_empty_conv)
  have one: "(\<exists>s'. filter (\<lambda>s. staskId s = taskId) (submissions d') = [s'] \<and>
               sstatus s' = SPending \<and> filePath s' = path \<and> fileName s' = name \<and> fileSize s' = sz \<and>
               (case submission_findByTask d taskId of
                  Some e \<Rightarrow> r = Response 200 ''Submission updated successfully'' \<and> sid s' = sid e \<and>
                            length (submissions d') = length (submissions d)
                | None \<Rightarrow> r = Response 201 ''Submission created successfully'' \<and> sid s' = newId \<and>
                          length (submissions d') = Suc (length (submissions d)))) \<and>
          task_findUnique d' taskId = Some (task\<lparr>tstatus := TSubmitted\<rparr>)" if ok: ?ok
  proof -
    from res ok have res': "(r, d') = (Response 201 ''Submission created successfully'',
      (fs_write d path)\<lparr>submissions := submissions d @ [?s],
        tasks := map (\<lambda>t. if tid t = taskId then t\<lparr>tstatus := TSubmitted\<rparr> else t) (tasks d)\<rparr>)"
      by simp
    have a: "filter (\<lambda>s. staskId s = taskId) (submissions d') = [?s]"
      using res' none by simp
    have c: "task_findUnique d' taskId = Some (task\<lparr>tstatus := TSubmitted\<rparr>)"
      using res' t(1) by (simp add: task_findUnique_def find_map_update)
    have d: "r = Response 201 ''Submission created successfully''"
      "length (submissions d') = Suc (length (submissions d))"
      using res' by simp_all
    from a c d None show ?thesis by simp
  qed
  have two: "r = server_error \<and>
          d' = d\<lparr>files := (case submission_findByTask d taskId of
                             Some e \<Rightarrow> removeAll path (removeAll (filePath e) (List.insert path (files d)))
                           | None \<Rightarrow> removeAll path (List.insert path (files d)))\<rparr>"
    if "status_code r \<noteq> 200 \<and> status_code r \<noteq> 201"
  proof -
    from res that have "(r, d') = (server_error, catch_cleanup (fs_write d path) path)"
      by (auto split: if_splits)
    then show ?thesis
      by (simp add: None catch_cleanup_def unlink_if_exists_files fs_write_def)
  qed
  have three: "distinct (map staskId (submissions d'))"
    using res uniq notin by (auto split: if_splits)
  from one two three show ?thesis by blast
next
  case (Some e)
  let ?g = "\<lambda>s. s\<lparr>filePath := path, fileName := name, fileSize := sz,
                   smessage := (case message of None \<Rightarrow> smessage e
                                | Some m \<Rightarrow> if m = [] then smessage e else Some m),
                   sstatus := SPending\<rparr>"
  let ?ok = "text_ok newId \<and> text_ok path \<and> text_ok name \<and> opt_text_ok message"
  let ?w = "written_ok (filePath e) path \<and> written_ok (fileName e) name \<and>
         (case message of None \<Rightarrow> True | Some m \<Rightarrow> m = [] \<or> Some m = smessage e \<or> text_ok m)"
  from Some have one: "filter (\<lambda>s. staskId s = taskId) (submissions d) = [e]"
    unfolding submission_findByTask_def by (rule filter_unique_key [OF uniq])
  have res: "(r, d') = (if ?w then (Response 200 ''Submission updated successfully'',
      (unlink_if_exists (fs_write d path) (filePath e))
        \<lparr>submissions := map (\<lambda>s. if staskId s = taskId then ?g s else s) (submissions d),
         tasks := map (\<lambda>t. if tid t = taskId then t\<lparr>tstatus := TSubmitted\<rparr> else t) (tasks d)\<rparr>)
      else (server_error, catch_cleanup (unlink_if_exists (fs_write d path) (filePath e)) path))"
    using run createSubmission_authorised [OF u t p, of newId path name sz message] Some
      replaceSubmission_result [of taskId "fs_write d path" e path name sz message] t(1) one
    by (auto split: if_splits)
  have okw: "?w" if ?ok
    using that by (auto simp: written_ok_def opt_text_ok_def split: option.splits)
  have keys: "map staskId (map (\<lambda>s. if staskId s = taskId then ?g s else s) (submissions d)) =
              map staskId (submissions d)"
    by (simp add: o_def if_distrib cong: if_cong)
  have first: "(\<exists>s'. filter (\<lambda>s. staskId s = taskId) (submissions d') = [s'] \<and>
               sstatus s' = SPending \<and> filePath s' = path \<and> fileName s' = name \<and> fileSize s' = sz \<and>
               (case submission_findByTask d taskId of
                  Some e \<Rightarrow> r = Response 200 ''Submission updated successfully'' \<and> sid s' = sid e \<and>
                            length (submissions d') = length (submissions d)
                | None \<Rightarrow> r = Response 201 ''Submission created successfully'' \<and> sid s' = newId \<and>
                          length (submissions d') = Suc (length (submissions d)))) \<and>
          task_findUnique d' taskId = Some (task\<lparr>tstatus := TSubmitted\<rparr>)" if ok: ?ok
  proof -
    from res okw [OF ok] have res': "(r, d') = (Response 200 ''Submission updated successfully'',
      (unlink_if_exists (fs_write d path) (filePath e))
        \<lparr>submissions := map (\<lambda>s. if staskId s = taskId then ?g s else s) (submissions d),
         tasks := map (\<lambda>t. if tid t = taskId then t\<lparr>tstatus := TSubmitted\<rparr> else t) (tasks d)\<rparr>)"
      by simp
    have comp: "(\<lambda>s. staskId s = taskId) \<circ> (\<lambda>s. if staskId s = taskId then ?g s else s) =
              (\<lambda>s. staskId s = taskId)"
      by (auto simp: fun_eq_iff)
    from Some have et: "staskId e = taskId"
      unfolding submission_findByTask_def by (auto dest: find_SomeD)
    have a: "filter (\<lambda>s. staskId s = taskId) (submissions d') = [?g e]"
      using res' one et by (simp add: filter_map comp)
    have c: "task_findUnique d' taskId = Some (task\<lparr>tstatus := TSubmitted\<rparr>)"
      using res' t(1) by (simp add: task_findUnique_def find_map_update)
    have d: "r = Response 200 ''Submission updated successfully''"
      "length (submissions d') = length (submissions d)"
      using res' by simp_all
    from a c d Some show ?thesis by simp
  qed
  have two: "r = server_error \<and>
          d' = d\<lparr>files := (case submission_findByTask d taskId of
                             Some e \<Rightarrow> removeAll path (removeAll (filePath e) (List.insert path (files d)))
                           | None \<Rightarrow> removeAll path (List.insert path (files d)))\<rparr>"
    if "status_code r \<noteq> 200 \<and> status_code r \<noteq> 201"
  proof -
    from res that
    have "(r, d') = (server_error, catch_cleanup (unlink_if_exists (fs_write d path) (filePath e)) path)"
      by (auto split: if_splits)
    then show ?thesis
      by (simp add: Some catch_cleanup_def unlink_if_exists_files fs_write_def)
  qed
  have sd: "submissions d' = map (\<lambda>s. if staskId s = taskId then ?g s else s) (submissions d) \<or>
            submissions d' = submissions d"
    using res by (auto split: if_splits)
  have three: "distinct (map staskId (submissions d'))"
    using sd
  proof
    assume e: "submissions d' = map (\<lambda>s. if staskId s = taskId then ?g s else s) (submissions d)"
    show ?thesis unfolding e keys by (rule uniq)
  next
    assume "submissions d' = submissions d"
    with uniq show ?thesis by simp
  qed
  from first two three show ?thesis by blast
qed

theorem createSubmission_one_per_task_witness:
  "user_findUnique ex_submitted ''s1'' = Some (mk_user ''s1'' ProblemSolver) \<and>
   task_findUnique ex_submitted ''t1'' = Some (ex_task TSubmitted) \<and>
   project_findUnique ex_submitted ''p1'' = Some (ex_project (Some ''s1'') InProgress) \<and>
   distinct (map staskId (submissions ex_submitted)) \<and>
   submission_findUnique ex_submitted ''u2'' = None \<and>
   createSubmission ex_submitted ''s1'' ''u2'' (Upload ''uploads/b.zip'' ''b.zip'' 20) ''t1'' None =
     (Response 200 ''Submission updated successfully'',
      ex_submitted\<lparr>submissions := [(ex_submission SPending None)
                        \<lparr>filePath := ''uploads/b.zip'', fileName := ''b.zip'', fileSize := 20\<rparr>],
                   files := [''uploads/b.zip'']\<rparr>) \<and>
   submission_findUnique (ex_working TPending) ''u1'' = None \<and>
   createSubmission (ex_working TPending) ''s1'' ''u1'' (Upload ''uploads/a.zip'' ''a.zip'' 10) ''t1'' None =
     (Response 201 ''Submission created successfully'', ex_submitted) \<and>
   text_ok ''u2'' \<and> text_ok ''uploads/b.zip'' \<and> text_ok ''b.zip'' \<and> opt_text_ok None \<and>
   \<not> text_ok [CHR ''b'', CHR 0x00] \<and>
   createSubmission ex_submitted ''s1'' ''u2'' (Upload ''uploads/b.zip'' [CHR ''b'', CHR 0x00] 20) ''t1'' None =
     (server_error, ex_submitted\<lparr>files := []\<rparr>)"
proof -
  let ?d = "ex_submitted" and ?e = "ex_working TPending"
  have u: "user_findUnique ?d ''s1'' = Some (mk_user ''s1'' ProblemSolver)"
    "urole (mk_user ''s1'' ProblemSolver) = ProblemSolver"
    by (simp_all add: ex_defs ex_defs2 store_defs)
  have t: "task_findUnique ?d ''t1'' = Some (ex_task TSubmitted)" "''t1'' \<noteq> []"
    by (simp_all add: ex_defs ex_defs2 store_defs)
  have p: "project_findUnique ?d (tprojectId (ex_task TSubmitted)) = Some (ex_project (Some ''s1'') InProgress)"
    "assignedSolverId (ex_project (Some ''s1'') InProgress) = Some ''s1''"
    by (simp_all add: ex_defs ex_defs2 store_defs)
  have uniq: "distinct (map staskId (submissions ?d))" by (simp add: ex_defs ex_defs2)
  have fresh: "submission_findUnique ?d ''u2'' = None" by (simp add: ex_defs ex_defs2 store_defs)
  have run: "createSubmission ?d ''s1'' ''u2'' (Upload ''uploads/b.zip'' ''b.zip'' 20) ''t1'' None =
     (Response 200 ''Submission updated successfully'',
      ?d\<lparr>submissions := [(ex_submission SPending None)
                        \<lparr>filePath := ''uploads/b.zip'', fileName := ''b.zip'', fileSize := 20\<rparr>],
          files := [''uploads/b.zip'']\<rparr>)"
    by (simp add: createSubmission_def submitFile_def replaceSubmission_def unlink_if_exists_def
        ex_defs ex_defs2 store_defs Let_def)
  have u': "user_findUnique ?e ''s1'' = Some (mk_user ''s1'' ProblemSolver)"
    by (simp_all add: ex_defs ex_defs2 store_defs)
  have t': "task_findUnique ?e ''t1'' = Some (ex_task TPending)"
    by (simp_all add: ex_defs ex_defs2 store_defs)
  have p': "project_findUnique ?e (tprojectId (ex_task TPending)) = Some (ex_project (Some ''s1'') InProgress)"
    by (simp_all add: ex_defs ex_defs2 store_defs)
  have uniq': "distinct (map staskId (submissions ?e))" by (simp add: ex_defs ex_defs2)
  have fresh': "submission_findUnique ?e ''u1'' = None" by (simp add: ex_defs ex_defs2 store_defs)
  have run': "createSubmission ?e ''s1'' ''u1'' (Upload ''uploads/a.zip'' ''a.zip'' 10) ''t1'' None =
     (Response 201 ''Submission created successfully'', ex_submitted)"
    by (simp add: createSubmission_def submitFile_def newSubmission_def
        ex_defs ex_defs2 store_defs Let_def)
  have bad: "createSubmission ?d ''s1'' ''u2'' (Upload ''uploads/b.zip'' [CHR ''b'', CHR 0x00] 20) ''t1'' None =
     (server_error, ?d\<lparr>files := []\<rparr>)"
    by (simp add: createSubmission_def submitFile_def replaceSubmission_def unlink_if_exists_def
        catch_cleanup_def ex_defs ex_defs2 store_defs Let_def)
  have tx: "text_ok ''u2''" "text_ok ''uploads/b.zip''" "text_ok ''b.zip''" "opt_text_ok None"
    "\<not> text_ok [CHR ''b'', CHR 0x00]" "text_ok ''u1''" "text_ok ''uploads/a.zip''" "text_ok ''a.zip''"
    by (simp_all add: text_ok_def opt_text_ok_def)
  from createSubmission_one_per_task [OF u t p uniq fresh run]
    createSubmission_one_per_task [OF u' u(2) t' t(2) p' p(2) uniq' fresh' run']
    createSubmission_one_per_task [OF u t p uniq fresh bad]
    u t p uniq fresh run fresh' run' bad tx
  show ?thesis by (simp add: ex_defs ex_defs2 store_defs)
qed

end
